theory Spec2Isabelle
  imports Complex_Main "HOL-Library.Char_ord"
begin

section \<open>Strings as the program uses them\<close>

text \<open>
  The program works on JavaScript strings. They are modelled as character lists; one
  \<^typ>\<open>char\<close> stands for one code unit, and the classification of characters
  (white space, letters, digits) is the ASCII one: the white space beyond ASCII that
  \<^verbatim>\<open>trim\<close> also removes (the no-break space, the byte order mark) is ordinary
  text here, and only the 26 ASCII capitals are lowered. The helpers below are the string
  methods the source calls: \<^verbatim>\<open>trim\<close>, \<^verbatim>\<open>split\<close>, \<^verbatim>\<open>join\<close>,
  \<^verbatim>\<open>includes\<close>, \<^verbatim>\<open>toLowerCase\<close> and the three regular-expression
  replacements it performs.
\<close>

definition dq :: char where
  "dq = CHR 0x22"

definition nl :: char where
  "nl = CHR 0x0A"

definition comma :: char where
  "comma = CHR '',''"

definition isSpace :: "char \<Rightarrow> bool" where
  "isSpace c = (c = CHR 0x09 \<or> c = CHR 0x0A \<or> c = CHR 0x0B \<or> c = CHR 0x0C
     \<or> c = CHR 0x0D \<or> c = CHR 0x20)"

definition trim :: "string \<Rightarrow> string" where
  "trim s = rev (dropWhile isSpace (rev (dropWhile isSpace s)))"

text \<open>\<^verbatim>\<open>s.split(c)\<close> for a one-character separator: always at least one piece.\<close>

fun splitFrom :: "char \<Rightarrow> string \<Rightarrow> string \<Rightarrow> string list" where
  "splitFrom c piece [] = [piece]"
| "splitFrom c piece (x # xs) =
     (if x = c then piece # splitFrom c [] xs else splitFrom c (piece @ [x]) xs)"

definition splitOn :: "char \<Rightarrow> string \<Rightarrow> string list" where
  "splitOn c s = splitFrom c [] s"

text \<open>\<^verbatim>\<open>xs.join(sep)\<close>.\<close>

fun joinWith :: "string \<Rightarrow> string list \<Rightarrow> string" where
  "joinWith sep [] = []"
| "joinWith sep [x] = x"
| "joinWith sep (x # y # ys) = x @ sep @ joinWith sep (y # ys)"

definition startsWith :: "string \<Rightarrow> string \<Rightarrow> bool" where
  "startsWith s p = (take (length p) s = p)"

text \<open>\<^verbatim>\<open>s.includes(sub)\<close>.\<close>

fun includesStr :: "string \<Rightarrow> string \<Rightarrow> bool" where
  "includesStr [] sub = (sub = [])"
| "includesStr (c # cs) sub = (startsWith (c # cs) sub \<or> includesStr cs sub)"

definition isUpper :: "char \<Rightarrow> bool" where
  "isUpper c = (CHR ''A'' \<le> c \<and> c \<le> CHR ''Z'')"

definition isLower :: "char \<Rightarrow> bool" where
  "isLower c = (CHR ''a'' \<le> c \<and> c \<le> CHR ''z'')"

definition isDigit :: "char \<Rightarrow> bool" where
  "isDigit c = (CHR ''0'' \<le> c \<and> c \<le> CHR ''9'')"

text \<open>\<^verbatim>\<open>s.toLowerCase()\<close>: each of the 26 capital letters becomes its small
  letter, every other character stays.\<close>

definition lowerChar :: "char \<Rightarrow> char" where
  "lowerChar c =
     (case map_of (zip ''ABCDEFGHIJKLMNOPQRSTUVWXYZ'' ''abcdefghijklmnopqrstuvwxyz'') c of
        None \<Rightarrow> c
      | Some l \<Rightarrow> l)"

definition toLowerCase :: "string \<Rightarrow> string" where
  "toLowerCase s = map lowerChar s"

text \<open>\<^verbatim>\<open>s.replace(/^"|"$/g, '')\<close>: one leading and one trailing quote are removed,
  each on its own.\<close>

definition stripQuotes :: "string \<Rightarrow> string" where
  "stripQuotes s =
     (let s1 = (case s of [] \<Rightarrow> [] | c # r \<Rightarrow> if c = dq then r else s)
      in if s1 \<noteq> [] \<and> last s1 = dq then butlast s1 else s1)"

text \<open>\<^verbatim>\<open>s.replace(/,/g, '')\<close> and \<^verbatim>\<open>s.replace(/"/g, '""')\<close>.\<close>

definition removeCommas :: "string \<Rightarrow> string" where
  "removeCommas s = filter (\<lambda>c. c \<noteq> comma) s"

definition doubleQuotes :: "string \<Rightarrow> string" where
  "doubleQuotes s = concat (map (\<lambda>c. if c = dq then [dq, dq] else [c]) s)"

text \<open>\<^verbatim>\<open>v || d\<close> on an optional string: an absent and an empty string both give
  the default.\<close>

definition orElse :: "string option \<Rightarrow> string \<Rightarrow> string" where
  "orElse v d = (case v of None \<Rightarrow> d | Some s \<Rightarrow> if s = [] then d else s)"

section \<open>Numbers\<close>

text \<open>
  A JavaScript number is modelled as an exact real or the value NaN. Rounding to
  double precision, the infinities and the sign of zero are not represented: finite
  arithmetic is exact, and a quotient by zero (which the program never forms from
  finite operands) is NaN here. A value beyond the range of doubles, which
  JavaScript turns into an infinity (and the difference of two infinities into
  NaN), stays the finite number it is; the statements below that give a score a
  value are therefore statements about inputs within that range.
\<close>

datatype jsnum = NaN | Num real

fun jadd :: "jsnum \<Rightarrow> jsnum \<Rightarrow> jsnum" where
  "jadd (Num a) (Num b) = Num (a + b)"
| "jadd _ _ = NaN"

fun jsub :: "jsnum \<Rightarrow> jsnum \<Rightarrow> jsnum" where
  "jsub (Num a) (Num b) = Num (a - b)"
| "jsub _ _ = NaN"

fun jmul :: "jsnum \<Rightarrow> jsnum \<Rightarrow> jsnum" where
  "jmul (Num a) (Num b) = Num (a * b)"
| "jmul _ _ = NaN"

fun jdiv :: "jsnum \<Rightarrow> jsnum \<Rightarrow> jsnum" where
  "jdiv (Num a) (Num b) = (if b = 0 then NaN else Num (a / b))"
| "jdiv _ _ = NaN"

text \<open>\<^verbatim>\<open>a === b\<close> on numbers: NaN equals nothing, itself included.\<close>

fun jeq :: "jsnum \<Rightarrow> jsnum \<Rightarrow> bool" where
  "jeq (Num a) (Num b) = (a = b)"
| "jeq _ _ = False"

fun jmax :: "jsnum \<Rightarrow> jsnum \<Rightarrow> jsnum" where
  "jmax (Num a) (Num b) = Num (max a b)"
| "jmax _ _ = NaN"

fun jmin :: "jsnum \<Rightarrow> jsnum \<Rightarrow> jsnum" where
  "jmin (Num a) (Num b) = Num (min a b)"
| "jmin _ _ = NaN"

text \<open>\<^verbatim>\<open>Math.max(...xs, c)\<close> and \<^verbatim>\<open>Math.min(...xs, c)\<close>: NaN as soon as one
  argument is.\<close>

definition mathMax :: "jsnum list \<Rightarrow> jsnum \<Rightarrow> jsnum" where
  "mathMax xs c = foldr jmax xs c"

definition mathMin :: "jsnum list \<Rightarrow> jsnum \<Rightarrow> jsnum" where
  "mathMin xs c = foldr jmin xs c"

text \<open>\<^verbatim>\<open>x || d\<close> on a number: NaN and zero give the default.\<close>

fun numOr :: "jsnum \<Rightarrow> jsnum \<Rightarrow> jsnum" where
  "numOr NaN d = d"
| "numOr (Num a) d = (if a = 0 then d else Num a)"

subsection \<open>Reading numbers from text\<close>

definition digitOf :: "char \<Rightarrow> nat" where
  "digitOf c =
     (if isDigit c then of_char c - 48
      else if isLower c then of_char c - 87
      else if isUpper c then of_char c - 55
      else 36)"

definition valueIn :: "nat \<Rightarrow> string \<Rightarrow> nat" where
  "valueIn r ds = foldl (\<lambda>a c. r * a + digitOf c) 0 ds"

definition isSign :: "char \<Rightarrow> bool" where
  "isSign c = (c = CHR ''-'' \<or> c = CHR ''+'')"

text \<open>
  \<^verbatim>\<open>parseInt(s)\<close> without a radix: leading white space, an optional sign, an
  optional \<^verbatim>\<open>0x\<close> prefix, then the longest run of digits; NaN when there is no
  digit.
\<close>

definition parseInt :: "string \<Rightarrow> jsnum" where
  "parseInt s =
     (let s1 = dropWhile isSpace s;
          neg = (s1 \<noteq> [] \<and> hd s1 = CHR ''-'');
          s2 = (if s1 \<noteq> [] \<and> isSign (hd s1) then tl s1 else s1);
          hex = (take 2 s2 = ''0x'' \<or> take 2 s2 = ''0X'');
          r = (if hex then 16 else 10);
          s3 = (if hex then drop 2 s2 else s2);
          ds = takeWhile (\<lambda>c. digitOf c < r) s3
      in if ds = [] then NaN
         else Num ((if neg then - 1 else 1) * real (valueIn r ds)))"

text \<open>
  \<^verbatim>\<open>parseFloat(s)\<close>: leading white space, an optional sign, digits with an
  optional fraction and an optional exponent; NaN when neither the integer part nor
  the fraction has a digit. The literal \<^verbatim>\<open>Infinity\<close>, which JavaScript also
  reads, has no counterpart among the modelled numbers and is read as NaN; a
  literal beyond the range of doubles, such as \<^verbatim>\<open>1e309\<close>, is read as its exact
  value where JavaScript reads an infinity.
\<close>

definition parseFloat :: "string \<Rightarrow> jsnum" where
  "parseFloat s =
     (let s1 = dropWhile isSpace s;
          neg = (s1 \<noteq> [] \<and> hd s1 = CHR ''-'');
          s2 = (if s1 \<noteq> [] \<and> isSign (hd s1) then tl s1 else s1);
          ip = takeWhile isDigit s2;
          r1 = dropWhile isDigit s2;
          dot = (r1 \<noteq> [] \<and> hd r1 = CHR ''.'');
          fp = (if dot then takeWhile isDigit (tl r1) else []);
          r2 = (if dot then dropWhile isDigit (tl r1) else r1);
          hasE = (r2 \<noteq> [] \<and> (hd r2 = CHR ''e'' \<or> hd r2 = CHR ''E''));
          r3 = tl r2;
          eneg = (r3 \<noteq> [] \<and> hd r3 = CHR ''-'');
          r4 = (if r3 \<noteq> [] \<and> isSign (hd r3) then tl r3 else r3);
          ed = takeWhile isDigit r4;
          mant = real (valueIn 10 ip) + real (valueIn 10 fp) / 10 ^ length fp;
          scaled = (if hasE \<and> ed \<noteq> []
                    then (if eneg then mant / 10 ^ valueIn 10 ed
                          else mant * 10 ^ valueIn 10 ed)
                    else mant)
      in if ip = [] \<and> fp = [] then NaN
         else Num ((if neg then - 1 else 1) * scaled))"

subsection \<open>Writing numbers as text\<close>

definition digitChar :: "nat \<Rightarrow> char" where
  "digitChar d = ''0123456789'' ! d"

fun showNat :: "nat \<Rightarrow> string" where
  "showNat n =
     (if n < 10 then [digitChar n]
      else showNat (n div 10) @ [digitChar (n mod 10)])"

declare showNat.simps [simp del]

text \<open>
  \<^verbatim>\<open>x.toFixed(f)\<close>, as the language defines it below 1e21: the nearest integer
  \<open>n\<close> to \<open>x * 10^f\<close> (the larger one of two), its digits padded with zeros
  to \<open>f + 1\<close> places, and a point before the last \<open>f\<close>. Above that bound
  JavaScript switches to exponent notation, which the model does not reproduce.
  The nearest integer is taken of the exact product, not of the double nearest to
  it, so the last digit can differ from JavaScript's where the exact product lies
  half-way between two such integers.
\<close>

definition toFixed :: "nat \<Rightarrow> jsnum \<Rightarrow> string" where
  "toFixed f x =
     (case x of
        NaN \<Rightarrow> ''NaN''
      | Num r \<Rightarrow>
          (let n = nat \<lfloor>\<bar>r\<bar> * 10 ^ f + 1 / 2\<rfloor>;
               m0 = showNat n;
               m = (if length m0 \<le> f
                    then replicate (f + 1 - length m0) (CHR ''0'') @ m0 else m0);
               k = length m
           in (if r < 0 then ''-'' else '''')
              @ (if f = 0 then m else take (k - f) m @ ''.'' @ drop (k - f) m)))"

section \<open>The tabular parser\<close>

text \<open>A raw record maps column names to text; a column that is absent maps to
  \<open>None\<close>.\<close>

type_synonym RawCompanyData = "string \<rightharpoonup> string"

text \<open>
  The inner loop of \<^verbatim>\<open>parseCSV\<close> over the characters of one line, with its three
  variables \<^verbatim>\<open>row\<close>, \<^verbatim>\<open>inQuote\<close> and \<^verbatim>\<open>currentCell\<close>; the last cell is
  pushed when the line ends.
\<close>

fun scanLine :: "string \<Rightarrow> string list \<Rightarrow> bool \<Rightarrow> string \<Rightarrow> string list" where
  "scanLine [] row inQuote currentCell = row @ [stripQuotes (trim currentCell)]"
| "scanLine (ch # rest) row inQuote currentCell =
     (if ch = dq then scanLine rest row (\<not> inQuote) currentCell
      else if ch = comma \<and> \<not> inQuote
        then scanLine rest (row @ [stripQuotes (trim currentCell)]) inQuote []
      else scanLine rest row inQuote (currentCell @ [ch]))"

definition parseLine :: "string \<Rightarrow> string list" where
  "parseLine l = scanLine l [] False []"

text \<open>\<^verbatim>\<open>headers.forEach((h, idx) => { obj[h] = row[idx]; })\<close> on an empty object. The
  object is a plain map from names to text: a column named \<^verbatim>\<open>__proto__\<close>, which
  JavaScript assigns without creating a property, is a key like any other here.\<close>

definition mkObj :: "string list \<Rightarrow> string list \<Rightarrow> RawCompanyData" where
  "mkObj headers row = fold (\<lambda>(h, v) obj. obj(h \<mapsto> v)) (zip headers row) Map.empty"

text \<open>The loop over the data lines, with the array \<^verbatim>\<open>data\<close> it appends to.\<close>

fun parseRows :: "string list \<Rightarrow> string list \<Rightarrow> RawCompanyData list \<Rightarrow> RawCompanyData list" where
  "parseRows headers [] data = data"
| "parseRows headers (l # ls) data =
     (let row = parseLine l
      in if length row = length headers
         then parseRows headers ls (data @ [mkObj headers row])
         else parseRows headers ls data)"

definition csvLines :: "string \<Rightarrow> string list" where
  "csvLines text = filter (\<lambda>l. trim l \<noteq> []) (splitOn nl text)"

definition csvHeaders :: "string list \<Rightarrow> string list" where
  "csvHeaders lines = map (\<lambda>h. stripQuotes (trim h)) (splitOn comma (hd lines))"

definition parseCSV :: "string \<Rightarrow> RawCompanyData list" where
  "parseCSV text =
     (let lines = csvLines text
      in if length lines < 2 then []
         else parseRows (csvHeaders lines) (tl lines) [])"

section \<open>The data model\<close>

record Scores =
  funding :: jsnum
  operations :: jsnum
  brandTrend :: jsnum
  potential :: jsnum
  comprehensive :: jsnum

record Themes =
  ai :: bool
  climate :: bool
  fintech :: bool
  healthcare :: bool
  saas :: bool
  consumer :: bool

record AcquisitionStatus =
  isAcquiredOrClosed :: bool
  label :: string
  color :: string

text \<open>The raw record with the four numbers the first pass of \<^verbatim>\<open>processData\<close>
  attaches to it (\<^verbatim>\<open>_fundAmt\<close>, \<^verbatim>\<open>_articles\<close>, \<^verbatim>\<open>_rank\<close>,
  \<^verbatim>\<open>_rounds\<close>).\<close>

record TempCompany =
  raw :: RawCompanyData
  tmp_fundAmt :: jsnum
  tmp_articles :: jsnum
  tmp_rank :: jsnum
  tmp_rounds :: jsnum

record ScoredCompany = TempCompany +
  ident :: string
  scores :: Scores
  themes :: Themes
  acquisitionStatus :: "AcquisitionStatus option"

record ThemeTrend =
  year :: int
  AI :: jsnum
  Climate :: jsnum
  Fintech :: jsnum
  Healthcare :: jsnum
  SaaS :: jsnum
  Consumer :: jsnum

record PortfolioItem =
  item_name :: "string option"
  item_themes :: "string list"

record InvestorStat =
  name :: string
  count :: nat
  topThemes :: "string list"
  portfolio :: "PortfolioItem list"

record ProcessResult =
  companies :: "ScoredCompany list"
  trends :: "ThemeTrend list"
  investors :: "InvestorStat list"

section \<open>Normalisation of a record\<close>

text \<open>\<^verbatim>\<open>parseEmployeeCount\<close>. The destructuring \<^verbatim>\<open>[min, max]\<close> of a split with
  fewer than two pieces (which a text containing a hyphen never gives) would add
  two undefined values, that is NaN.\<close>

definition parseEmployeeCount :: "string option \<Rightarrow> jsnum" where
  "parseEmployeeCount rng =
     (case rng of
        None \<Rightarrow> Num 0
      | Some r \<Rightarrow>
          if r = [] then Num 0
          else if CHR ''+'' \<in> set r then jadd (parseInt r) (Num 10)
          else if CHR ''-'' \<in> set r then
            (case map (\<lambda>s. parseInt (removeCommas s)) (splitOn (CHR ''-'') r) of
               mn # mx # _ \<Rightarrow> jdiv (jadd mn mx) (Num 2)
             | _ \<Rightarrow> NaN)
          else numOr (parseInt r) (Num 0))"

text \<open>\<^verbatim>\<open>normalize\<close>.\<close>

definition normalizeJs :: "jsnum \<Rightarrow> jsnum \<Rightarrow> jsnum \<Rightarrow> jsnum" where
  "normalizeJs val mn mx = (if jeq mx mn then Num 0 else jdiv (jsub val mn) (jsub mx mn))"

text \<open>The first pass of \<^verbatim>\<open>processData\<close> over one raw record.\<close>

definition toTemp :: "RawCompanyData \<Rightarrow> TempCompany" where
  "toTemp c =
     \<lparr> raw = c,
       tmp_fundAmt = parseFloat (orElse (c ''Total Funding Amount (in USD)'') ''0''),
       tmp_articles = parseInt (orElse (c ''Number of Articles'') ''0''),
       tmp_rank = parseInt (removeCommas (orElse (c ''CB Rank (Company)'') ''100000'')),
       tmp_rounds = parseInt (orElse (c ''Number of Funding Rounds'') ''1'') \<rparr>"

text \<open>The six batch-wide bounds, each with its constant fallback.\<close>

record Bounds =
  maxFund :: jsnum
  minFund :: jsnum
  maxArticles :: jsnum
  maxRounds :: jsnum
  minRank :: jsnum
  maxRank :: jsnum

definition batchBounds :: "TempCompany list \<Rightarrow> Bounds" where
  "batchBounds ts =
     \<lparr> maxFund = mathMax (map tmp_fundAmt ts) (Num 1),
       minFund = mathMin (map tmp_fundAmt ts) (Num 0),
       maxArticles = mathMax (map tmp_articles ts) (Num 1),
       maxRounds = mathMax (map tmp_rounds ts) (Num 1),
       minRank = mathMin (map tmp_rank ts) (Num 1),
       maxRank = mathMax (map tmp_rank ts) (Num 100000) \<rparr>"

section \<open>Theme detection\<close>

definition isWordChar :: "char \<Rightarrow> bool" where
  "isWordChar c = (isDigit c \<or> isLower c \<or> isUpper c \<or> c = CHR ''_'')"

text \<open>The alternative \<^verbatim>\<open>ai\b\<close>: the letters \<^verbatim>\<open>ai\<close> followed by the end of the
  text or by a character that is not a word character.\<close>

fun includesAiWordEnd :: "string \<Rightarrow> bool" where
  "includesAiWordEnd [] = False"
| "includesAiWordEnd (c # cs) =
     ((startsWith (c # cs) ''ai''
         \<and> (case drop 2 (c # cs) of [] \<Rightarrow> True | d # _ \<Rightarrow> \<not> isWordChar d))
      \<or> includesAiWordEnd cs)"

definition includesAny :: "string \<Rightarrow> string list \<Rightarrow> bool" where
  "includesAny text alts = list_ex (includesStr text) alts"

definition detectThemes :: "string \<Rightarrow> Themes" where
  "detectThemes text =
     \<lparr> ai = (includesAiWordEnd text \<or> includesAny text
         [''artificial intelligence'', ''machine learning'', ''deep learning'', ''llm'',
          ''nlp'', ''genai'', ''neural network'', ''gpt'', ''computer vision'']),
       climate = includesAny text
         [''climate'', ''carbon'', ''emission'', ''renewable'', ''solar'', ''battery'',
          ''sustainable'', ''energy'', ''clean tech'', ''green'', ''environment'', ''wind'',
          ''hydro''],
       fintech = includesAny text
         [''fintech'', ''payment'', ''lending'', ''banking'', ''crypto'', ''wallet'',
          ''neobank'', ''insurance'', ''wealth'', ''trading'', ''blockchain'', ''defi''],
       healthcare = includesAny text
         [''biotech'', ''health'', ''pharma'', ''medical'', ''therapeutics'', ''biology'',
          ''patient'', ''doctor'', ''care'', ''clinic'', ''drug'', ''genomic'',
          ''life science''],
       saas = includesAny text
         [''enterprise'', ''saas'', ''b2b'', ''software'', ''cloud'', ''automation'',
          ''workflow'', ''productivity'', ''crm'', ''erp'', ''platform'', ''infrastructure'',
          ''api''],
       consumer = includesAny text
         [''b2c'', ''consumer'', ''retail'', ''e-commerce'', ''social'', ''app'',
          ''marketplace'', ''brand'', ''fashion'', ''food'', ''d2c'', ''subscription'',
          ''media''] \<rparr>"

definition anyTheme :: "Themes \<Rightarrow> bool" where
  "anyTheme t = (ai t \<or> climate t \<or> fintech t \<or> healthcare t \<or> saas t \<or> consumer t)"

definition companyText :: "RawCompanyData \<Rightarrow> string" where
  "companyText c =
     toLowerCase (orElse (c ''Description'') [] @ '' '' @ orElse (c ''Full Description'') [])"

section \<open>The scoring engine\<close>

definition fundingScoreOf :: "Bounds \<Rightarrow> TempCompany \<Rightarrow> jsnum" where
  "fundingScoreOf b c =
     (let normAmt = normalizeJs (tmp_fundAmt c) (minFund b) (maxFund b);
          normRounds = normalizeJs (tmp_rounds c) (Num 0) (maxRounds b)
      in jmul (jadd (jmul normAmt (Num 0.7)) (jmul normRounds (Num 0.3))) (Num 100))"

definition opsScoreOf :: "RawCompanyData \<Rightarrow> jsnum" where
  "opsScoreOf c =
     (let employeeMedian = parseEmployeeCount (c ''Number of Employees'');
          normEmp = jdiv (jmin employeeMedian (Num 500)) (Num 500);
          isActive = (if orElse (c ''Operating Status'') ''Active'' = ''Active''
                      then Num 1 else Num 0)
      in jmul (jadd (jmul normEmp (Num 0.6)) (jmul isActive (Num 0.4))) (Num 100))"

definition brandTrendScoreOf :: "Bounds \<Rightarrow> TempCompany \<Rightarrow> Themes \<Rightarrow> jsnum" where
  "brandTrendScoreOf b c t =
     (let normRank = jsub (Num 1) (normalizeJs (tmp_rank c) (minRank b) (maxRank b));
          normArticles = normalizeJs (tmp_articles c) (Num 0) (maxArticles b);
          keywordBonus = (if anyTheme t then Num 0.2 else Num 0)
      in jmul (jmin (jadd (jadd (jmul normRank (Num 0.5)) (jmul normArticles (Num 0.3)))
                       keywordBonus) (Num 1))
           (Num 100))"

text \<open>The stage score: three \<^verbatim>\<open>if\<close> statements without \<^verbatim>\<open>else\<close>, each of which
  overwrites what the earlier ones assigned.\<close>

definition stageScoreOf :: "string option \<Rightarrow> real" where
  "stageScoreOf lastFundingType =
     (let stage = toLowerCase (orElse lastFundingType []);
          s0 = 0.3;
          s1 = (if includesStr stage ''series a'' then 0.7 else s0);
          s2 = (if includesStr stage ''series b'' \<or> includesStr stage ''series c''
                then 0.9 else s1);
          s3 = (if includesStr stage ''ipo'' \<or> includesStr stage ''acquired''
                then 0.5 else s2)
      in s3)"

definition potentialScoreOf :: "real \<Rightarrow> jsnum \<Rightarrow> jsnum \<Rightarrow> jsnum" where
  "potentialScoreOf stageScore fundingScore brandTrendScore =
     jmul (jadd (jadd (jmul (Num stageScore) (Num 0.4))
                   (jmul (jdiv fundingScore (Num 100)) (Num 0.3)))
             (jmul (jdiv brandTrendScore (Num 100)) (Num 0.3)))
       (Num 100)"

definition scoresOf :: "Bounds \<Rightarrow> TempCompany \<Rightarrow> Themes \<Rightarrow> Scores" where
  "scoresOf b c t =
     (let fundingScore = fundingScoreOf b c;
          opsScore = opsScoreOf (raw c);
          brandTrendScore = brandTrendScoreOf b c t;
          potentialScore =
            potentialScoreOf (stageScoreOf (raw c ''Last Funding Type'')) fundingScore
              brandTrendScore
      in \<lparr> funding = fundingScore, operations = opsScore, brandTrend = brandTrendScore,
           potential = potentialScore,
           comprehensive =
             jdiv (jadd (jadd (jadd fundingScore opsScore) brandTrendScore) potentialScore)
               (Num 4) \<rparr>)"

section \<open>Status detection\<close>

text \<open>
  How the host reads a date text (\<^verbatim>\<open>new Date(s)\<close>) depends on the JavaScript
  engine, so it is a parameter \<open>dateOf\<close> of the model: \<open>None\<close> for an invalid
  date, otherwise the full year and the month index (0 to 11) the program asks for.
\<close>

type_synonym dateReader = "string \<Rightarrow> (int \<times> nat) option"

definition showInt :: "int \<Rightarrow> string" where
  "showInt i = (if i < 0 then ''-'' @ showNat (nat (- i)) else showNat (nat i))"

definition formatDate :: "dateReader \<Rightarrow> string option \<Rightarrow> string" where
  "formatDate dateOf dateStr =
     (case dateStr of
        None \<Rightarrow> []
      | Some s \<Rightarrow>
          if s = [] then []
          else (case dateOf s of
                  None \<Rightarrow> []
                | Some (y, m) \<Rightarrow>
                    (let month = showNat (m + 1)
                     in replicate (2 - length month) (CHR ''0'') @ month @ ''/'' @ showInt y)))"

definition acquisitionStatusOf :: "dateReader \<Rightarrow> RawCompanyData \<Rightarrow> AcquisitionStatus option" where
  "acquisitionStatusOf dateOf c =
     (let opStatus = toLowerCase (orElse (c ''Operating Status'') []);
          acquiredBy = c ''Acquired by''
      in if opStatus = ''closed'' then
           Some \<lparr> isAcquiredOrClosed = True,
                  label = trim (''Closed '' @ formatDate dateOf (c ''Closed Date'')),
                  color = ''bg-rose-100 text-rose-700 border-rose-200'' \<rparr>
         else if opStatus = ''acquired''
              \<or> (case acquiredBy of None \<Rightarrow> False | Some a \<Rightarrow> length a > 1) then
           Some \<lparr> isAcquiredOrClosed = True,
                  label = trim (''Acquired''
                    @ (case acquiredBy of None \<Rightarrow> []
                       | Some a \<Rightarrow> if a = [] then [] else '' by '' @ a)
                    @ '' '' @ formatDate dateOf (c ''Exit Date'')),
                  color = ''bg-purple-100 text-purple-700 border-purple-200'' \<rparr>
         else None)"

text \<open>The second pass over one record and its index.\<close>

definition scoreCompany :: "dateReader \<Rightarrow> Bounds \<Rightarrow> TempCompany \<Rightarrow> nat \<Rightarrow> ScoredCompany" where
  "scoreCompany dateOf b c idx =
     (let t = detectThemes (companyText (raw c))
      in TempCompany.extend c
           (ScoredCompany.fields (''comp-'' @ showNat idx) (scoresOf b c t) t
              (acquisitionStatusOf dateOf (raw c))))"

section \<open>Sorting\<close>

text \<open>
  \<^verbatim>\<open>xs.sort(cmp)\<close> is a stable sort. It is modelled as the stable insertion sort
  over the test \<open>after a b\<close>, which stands for \<^verbatim>\<open>cmp(a, b) > 0\<close>: an element
  moves behind those it must come after and stays in front of its equals.
\<close>

fun insertWith :: "('a \<Rightarrow> 'a \<Rightarrow> bool) \<Rightarrow> 'a \<Rightarrow> 'a list \<Rightarrow> 'a list" where
  "insertWith after x [] = [x]"
| "insertWith after x (y # ys) =
     (if after x y then y # insertWith after x ys else x # y # ys)"

definition sortWith :: "('a \<Rightarrow> 'a \<Rightarrow> bool) \<Rightarrow> 'a list \<Rightarrow> 'a list" where
  "sortWith after xs = foldr (insertWith after) xs []"

fun jpos :: "jsnum \<Rightarrow> bool" where
  "jpos (Num a) = (0 < a)"
| "jpos NaN = False"

section \<open>The trend aggregator\<close>

record TrendCount =
  n_AI :: nat
  n_Climate :: nat
  n_Fintech :: nat
  n_Healthcare :: nat
  n_SaaS :: nat
  n_Consumer :: nat
  n_count :: nat

definition zeroTrend :: TrendCount where
  "zeroTrend = \<lparr> n_AI = 0, n_Climate = 0, n_Fintech = 0, n_Healthcare = 0, n_SaaS = 0,
     n_Consumer = 0, n_count = 0 \<rparr>"

definition bumpTrend :: "Themes \<Rightarrow> TrendCount \<Rightarrow> TrendCount" where
  "bumpTrend t e =
     \<lparr> n_AI = n_AI e + (if ai t then 1 else 0),
       n_Climate = n_Climate e + (if climate t then 1 else 0),
       n_Fintech = n_Fintech e + (if fintech t then 1 else 0),
       n_Healthcare = n_Healthcare e + (if healthcare t then 1 else 0),
       n_SaaS = n_SaaS e + (if saas t then 1 else 0),
       n_Consumer = n_Consumer e + (if consumer t then 1 else 0),
       n_count = n_count e + 1 \<rparr>"

text \<open>The variable \<^verbatim>\<open>year\<close> of the loop: 0 unless the founding date is present and
  valid.\<close>

definition foundedYear :: "dateReader \<Rightarrow> RawCompanyData \<Rightarrow> int" where
  "foundedYear dateOf c =
     (case c ''Founded Date'' of
        None \<Rightarrow> 0
      | Some s \<Rightarrow> if s = [] then 0 else (case dateOf s of None \<Rightarrow> 0 | Some (y, m) \<Rightarrow> y))"

text \<open>One round of the loop over the scored companies. The insertion-ordered map
  \<^verbatim>\<open>trendsMap\<close> is a list of pairs with distinct keys.\<close>

definition trendStep ::
  "dateReader \<Rightarrow> int \<Rightarrow> (int \<times> TrendCount) list \<Rightarrow> ScoredCompany \<Rightarrow> (int \<times> TrendCount) list" where
  "trendStep dateOf currentYear m c =
     (let y = foundedYear dateOf (raw c)
      in if 1990 < y \<and> y \<le> currentYear then
           (let m1 = (if y \<in> fst ` set m then m else m @ [(y, zeroTrend)])
            in map (\<lambda>(k, e). if k = y then (k, bumpTrend (themes c) e) else (k, e)) m1)
         else m)"

text \<open>\<^verbatim>\<open>parseFloat(((k / n) * 100).toFixed(1))\<close>, on the exact quotient: where
  \<open>1000 * k / n\<close> lies half-way between two integers (as for 23 of 80) the
  double that JavaScript rounds may fall on the other side of the tie.\<close>

definition percentOf :: "nat \<Rightarrow> nat \<Rightarrow> jsnum" where
  "percentOf k n = parseFloat (toFixed 1 (jmul (jdiv (Num (real k)) (Num (real n))) (Num 100)))"

definition mkTrend :: "int \<times> TrendCount \<Rightarrow> ThemeTrend" where
  "mkTrend p =
     (case p of (y, d) \<Rightarrow>
        \<lparr> year = y,
          AI = percentOf (n_AI d) (n_count d),
          Climate = percentOf (n_Climate d) (n_count d),
          Fintech = percentOf (n_Fintech d) (n_count d),
          Healthcare = percentOf (n_Healthcare d) (n_count d),
          SaaS = percentOf (n_SaaS d) (n_count d),
          Consumer = percentOf (n_Consumer d) (n_count d) \<rparr>)"

definition trendsOf :: "dateReader \<Rightarrow> int \<Rightarrow> ScoredCompany list \<Rightarrow> ThemeTrend list" where
  "trendsOf dateOf currentYear scored =
     sortWith (\<lambda>a b. 0 < year a - year b)
       (map mkTrend (foldl (trendStep dateOf currentYear) [] scored))"

section \<open>The investor aggregator\<close>

text \<open>A \<^verbatim>\<open>Set\<close> built from a list keeps the first occurrence of each element, in
  order.\<close>

definition dedupe :: "'a list \<Rightarrow> 'a list" where
  "dedupe xs = foldl (\<lambda>acc x. if x \<in> set acc then acc else acc @ [x]) [] xs"

definition extractInvestors :: "RawCompanyData \<Rightarrow> string list" where
  "extractInvestors row =
     (let rawList = joinWith '',''
            (concat (map (\<lambda>k. case row k of None \<Rightarrow> []
                              | Some s \<Rightarrow> if s = [] then [] else [s])
               [''Top 5 Investors'', ''Lead Investors'', ''Investors'']))
      in dedupe
           (filter (\<lambda>s. 2 < length s \<and> \<not> includesStr (toLowerCase s) ''undisclosed'')
              (map (\<lambda>s. stripQuotes (trim s)) (splitOn comma rawList))))"

definition activeThemesOf :: "Themes \<Rightarrow> string list" where
  "activeThemesOf t =
     (if ai t then [''AI''] else []) @ (if climate t then [''Climate''] else [])
     @ (if fintech t then [''Fintech''] else []) @ (if healthcare t then [''Healthcare''] else [])
     @ (if saas t then [''SaaS''] else []) @ (if consumer t then [''Consumer''] else [])"

text \<open>The per-investor accumulator: \<^verbatim>\<open>count\<close>, \<^verbatim>\<open>themeCounts\<close> (an object whose
  six keys were inserted in the order below) and \<^verbatim>\<open>portfolio\<close> (a map from company
  name to themes; the name may be undefined).\<close>

record InvestorAcc =
  acc_count :: nat
  acc_themeCounts :: "(string \<times> nat) list"
  acc_portfolio :: "(string option \<times> string list) list"

definition zeroCounts :: "(string \<times> nat) list" where
  "zeroCounts = [(''AI'', 0), (''Climate'', 0), (''Fintech'', 0), (''Healthcare'', 0),
     (''SaaS'', 0), (''Consumer'', 0)]"

definition newInvestor :: InvestorAcc where
  "newInvestor = \<lparr> acc_count = 0, acc_themeCounts = zeroCounts, acc_portfolio = [] \<rparr>"

text \<open>\<^verbatim>\<open>map.set(k, v)\<close>: an existing key keeps its place, a new one goes last.\<close>

fun mapSet :: "'k \<Rightarrow> 'v \<Rightarrow> ('k \<times> 'v) list \<Rightarrow> ('k \<times> 'v) list" where
  "mapSet k v [] = [(k, v)]"
| "mapSet k v (p # ps) = (if fst p = k then (k, v) # ps else p # mapSet k v ps)"

definition incrCount :: "string \<Rightarrow> (string \<times> nat) list \<Rightarrow> (string \<times> nat) list" where
  "incrCount k tc = map (\<lambda>(n, v). if n = k then (n, v + 1) else (n, v)) tc"

definition bumpInvestor :: "ScoredCompany \<Rightarrow> InvestorAcc \<Rightarrow> InvestorAcc" where
  "bumpInvestor c e =
     \<lparr> acc_count = acc_count e + 1,
       acc_themeCounts = fold incrCount (activeThemesOf (themes c)) (acc_themeCounts e),
       acc_portfolio =
         mapSet (raw c ''Organization Name'') (activeThemesOf (themes c)) (acc_portfolio e) \<rparr>"

definition addInvestor ::
  "ScoredCompany \<Rightarrow> (string \<times> InvestorAcc) list \<Rightarrow> string \<Rightarrow> (string \<times> InvestorAcc) list" where
  "addInvestor c m invName =
     (let m1 = (if invName \<in> fst ` set m then m else m @ [(invName, newInvestor)])
      in map (\<lambda>(k, e). if k = invName then (k, bumpInvestor c e) else (k, e)) m1)"

definition investorMapOf :: "ScoredCompany list \<Rightarrow> (string \<times> InvestorAcc) list" where
  "investorMapOf scored =
     foldl (\<lambda>m c. foldl (addInvestor c) m (extractInvestors (raw c))) [] scored"

text \<open>\<^verbatim>\<open>Object.entries(themeCounts).sort(...).filter(...).slice(0, 3).map(...)\<close>.\<close>

definition sortedThemes :: "(string \<times> nat) list \<Rightarrow> string list" where
  "sortedThemes tc =
     map fst (take 3 (filter (\<lambda>t. 0 < snd t)
       (sortWith (\<lambda>a b. 0 < int (snd b) - int (snd a)) tc)))"

definition mkInvestor :: "string \<times> InvestorAcc \<Rightarrow> InvestorStat" where
  "mkInvestor p =
     (case p of (nm, d) \<Rightarrow>
        \<lparr> name = nm,
          count = acc_count d,
          topThemes = sortedThemes (acc_themeCounts d),
          portfolio = map (\<lambda>(cName, cThemes). \<lparr> item_name = cName, item_themes = cThemes \<rparr>)
                        (acc_portfolio d) \<rparr>)"

definition investorsOf :: "ScoredCompany list \<Rightarrow> InvestorStat list" where
  "investorsOf scored =
     take 50 (sortWith (\<lambda>a b. 0 < int (count b) - int (count a))
       (map mkInvestor (investorMapOf scored)))"

section \<open>The pipeline\<close>

text \<open>\<^verbatim>\<open>processData\<close>. Besides the batch it takes the two things it asks of the
  host: how a date text is read, and the current year.\<close>

definition scoredOf :: "dateReader \<Rightarrow> RawCompanyData list \<Rightarrow> ScoredCompany list" where
  "scoredOf dateOf rawData =
     (let processedTemp = map toTemp rawData;
          b = batchBounds processedTemp
      in map (\<lambda>(c, idx). scoreCompany dateOf b c idx)
           (zip processedTemp [0 ..< length processedTemp]))"

definition processData :: "dateReader \<Rightarrow> int \<Rightarrow> RawCompanyData list \<Rightarrow> ProcessResult" where
  "processData dateOf currentYear rawData =
     (let scored = scoredOf dateOf rawData
      in \<lparr> companies =
             sortWith (\<lambda>a b. jpos (jsub (comprehensive (scores b)) (comprehensive (scores a))))
               scored,
           trends = trendsOf dateOf currentYear scored,
           investors = investorsOf scored \<rparr>)"

section \<open>The exporter\<close>

text \<open>
  \<^verbatim>\<open>exportCompaniesToCSV\<close> up to the text it hands to the browser for download.
  Calling \<^verbatim>\<open>replace\<close> on the name of a company that has none throws a type error.
\<close>

datatype error = TypeError

definition quoted :: "string \<Rightarrow> string" where
  "quoted s = [dq] @ doubleQuotes s @ [dq]"

definition exportHeaders :: "string list" where
  "exportHeaders =
     [''Rank'', ''Organization Name'', ''Comprehensive Score'', ''Potential Score'',
      ''Funding Score'', ''Operations Score'', ''Brand Score'',
      ''Headquarters Location'', ''Industries'', ''Description'', ''Website'']"

definition exportRow :: "ScoredCompany \<Rightarrow> nat \<Rightarrow> error + string list" where
  "exportRow c idx =
     (case raw c ''Organization Name'' of
        None \<Rightarrow> Inl TypeError
      | Some orgName \<Rightarrow>
          Inr [showNat (idx + 1),
               quoted orgName,
               toFixed 2 (comprehensive (scores c)),
               toFixed 2 (potential (scores c)),
               toFixed 2 (funding (scores c)),
               toFixed 2 (operations (scores c)),
               toFixed 2 (brandTrend (scores c)),
               quoted (orElse (raw c ''Headquarters Location'') []),
               quoted (orElse (raw c ''Industries'') []),
               [dq] @ take 1000 (doubleQuotes
                  (orElse (raw c ''Full Description'') (orElse (raw c ''Description'') [])))
                 @ [dq],
               orElse (raw c ''Organization Name URL'') []])"

fun exportRows :: "ScoredCompany list \<Rightarrow> nat \<Rightarrow> error + string list list" where
  "exportRows [] idx = Inr []"
| "exportRows (c # cs) idx =
     (case exportRow c idx of
        Inl e \<Rightarrow> Inl e
      | Inr r \<Rightarrow> (case exportRows cs (idx + 1) of Inl e \<Rightarrow> Inl e | Inr rs \<Rightarrow> Inr (r # rs)))"

definition exportCompaniesToCSV :: "ScoredCompany list \<Rightarrow> error + string" where
  "exportCompaniesToCSV cs =
     (case exportRows cs 0 of
        Inl e \<Rightarrow> Inl e
      | Inr rows \<Rightarrow>
          Inr (joinWith [nl] (joinWith '','' exportHeaders # map (joinWith '','') rows)))"

section \<open>Predicates used in the statements\<close>

definition nonNegative :: "jsnum \<Rightarrow> bool" where
  "nonNegative x = (case x of NaN \<Rightarrow> False | Num r \<Rightarrow> 0 \<le> r)"

text \<open>A raw record whose four numeric columns and headcount all read as numbers,
  with no negative count among articles, rounds and headcount.\<close>

definition plausibleNumbers :: "RawCompanyData \<Rightarrow> bool" where
  "plausibleNumbers c =
     (tmp_fundAmt (toTemp c) \<noteq> NaN \<and> tmp_rank (toTemp c) \<noteq> NaN
      \<and> nonNegative (tmp_articles (toTemp c)) \<and> nonNegative (tmp_rounds (toTemp c))
      \<and> nonNegative (parseEmployeeCount (c ''Number of Employees'')))"

text \<open>The normalisation on reals: 0 when the bounds coincide, else the position of
  the value between them.\<close>

definition normalizeReal :: "real \<Rightarrow> real \<Rightarrow> real \<Rightarrow> real" where
  "normalizeReal v mn mx = (if mx = mn then 0 else (v - mn) / (mx - mn))"

text \<open>
  The brand score as the specification words it, for comparison with the code: the
  lower rank bound is the least rank present in the batch, and the keyword bonus of
  0.2 enters with a weight of 0.2.
\<close>

definition brandTrend_as_specified :: "real \<Rightarrow> real \<Rightarrow> bool \<Rightarrow> real list \<Rightarrow> real list \<Rightarrow> real" where
  "brandTrend_as_specified rk articleCount anyFlag rks ars =
     100 * min 1 (0.5 * (1 - normalizeReal rk (Min (set rks)) (Max (insert 100000 (set rks))))
                  + 0.3 * normalizeReal articleCount 0 (Max (insert 1 (set ars)))
                  + 0.2 * (if anyFlag then 0.2 else 0))"

text \<open>The six theme names in the order in which \<^verbatim>\<open>themeCounts\<close> holds them, the
  place of a name in that order, and the tally an entry list gives a name.\<close>

definition themeNames :: "string list" where
  "themeNames = [''AI'', ''Climate'', ''Fintech'', ''Healthcare'', ''SaaS'', ''Consumer'']"

definition priority :: "string \<Rightarrow> nat" where
  "priority t = length (takeWhile (\<lambda>x. x \<noteq> t) themeNames)"

definition tallyOf :: "(string \<times> nat) list \<Rightarrow> string \<Rightarrow> nat" where
  "tallyOf tc t = (case map_of tc t of None \<Rightarrow> 0 | Some n \<Rightarrow> n)"

text \<open>What every per-investor accumulator satisfies: its tallies are listed under the
  six theme names in their fixed order, and its portfolio has no more entries than
  its count.\<close>

definition goodAcc :: "InvestorAcc \<Rightarrow> bool" where
  "goodAcc e =
     (map fst (acc_themeCounts e) = themeNames \<and> length (acc_portfolio e) \<le> acc_count e)"

text \<open>\<open>x\<close> is the percentage of \<open>k\<close> in \<open>n\<close> rounded to one decimal: a
  number with one decimal place, at most half a tenth away from \<open>100 * k / n\<close>.\<close>

definition roundedPercent :: "jsnum \<Rightarrow> nat \<Rightarrow> nat \<Rightarrow> bool" where
  "roundedPercent x k n =
     (case x of
        NaN \<Rightarrow> False
      | Num p \<Rightarrow> of_int \<lfloor>p * 10\<rfloor> = p * 10 \<and> \<bar>p - 100 * real k / real n\<bar> \<le> 1 / 20)"

text \<open>The companies of a batch founded in a given year, and how many records of a
  list carry a theme.\<close>

definition bucketOf :: "dateReader \<Rightarrow> int \<Rightarrow> RawCompanyData list \<Rightarrow> RawCompanyData list" where
  "bucketOf dateOf y rawData = filter (\<lambda>r. foundedYear dateOf r = y) rawData"

definition withTheme :: "(Themes \<Rightarrow> bool) \<Rightarrow> RawCompanyData list \<Rightarrow> nat" where
  "withTheme flag rs = length (filter (\<lambda>r. flag (detectThemes (companyText r))) rs)"

text \<open>The counters a year has after the companies \<open>cs\<close> were processed, and the
  invariant of the loop that fills \<^verbatim>\<open>trendsMap\<close>.\<close>

definition countsFor :: "dateReader \<Rightarrow> int \<Rightarrow> ScoredCompany list \<Rightarrow> TrendCount" where
  "countsFor dateOf y cs =
     \<lparr> n_AI = length (filter (\<lambda>c. foundedYear dateOf (raw c) = y \<and> ai (themes c)) cs),
       n_Climate = length (filter (\<lambda>c. foundedYear dateOf (raw c) = y \<and> climate (themes c)) cs),
       n_Fintech = length (filter (\<lambda>c. foundedYear dateOf (raw c) = y \<and> fintech (themes c)) cs),
       n_Healthcare = length (filter (\<lambda>c. foundedYear dateOf (raw c) = y \<and> healthcare (themes c)) cs),
       n_SaaS = length (filter (\<lambda>c. foundedYear dateOf (raw c) = y \<and> saas (themes c)) cs),
       n_Consumer = length (filter (\<lambda>c. foundedYear dateOf (raw c) = y \<and> consumer (themes c)) cs),
       n_count = length (filter (\<lambda>c. foundedYear dateOf (raw c) = y) cs) \<rparr>"

definition trendInv :: "dateReader \<Rightarrow> int \<Rightarrow> ScoredCompany list \<Rightarrow> (int \<times> TrendCount) list \<Rightarrow> bool" where
  "trendInv dateOf now cs m =
     (distinct (map fst m)
      \<and> set (map fst m) = {y. \<exists>c \<in> set cs. foundedYear dateOf (raw c) = y \<and> 1990 < y \<and> y \<le> now}
      \<and> (\<forall>p \<in> set m. snd p = countsFor dateOf (fst p) cs))"

text \<open>A date reader and a batch for a worked example: three companies founded in
  2001 (one of them tagged AI), one in 1999, one in 1985, and one whose founding
  date is no date.\<close>

definition exampleDates :: dateReader where
  "exampleDates = (\<lambda>s. if s = ''2001-05-01'' then Some (2001, 4)
             else if s = ''1999-01-01'' then Some (1999, 0)
             else if s = ''1985-01-01'' then Some (1985, 0) else None)"

definition exampleBatch :: "RawCompanyData list" where
  "exampleBatch =
        [[''Founded Date'' \<mapsto> ''2001-05-01'', ''Description'' \<mapsto> ''ai''],
         [''Founded Date'' \<mapsto> ''1999-01-01''],
         [''Founded Date'' \<mapsto> ''2001-05-01''],
         [''Founded Date'' \<mapsto> ''2001-05-01''],
         [''Founded Date'' \<mapsto> ''1985-01-01''],
         [''Founded Date'' \<mapsto> ''soon'']]"

text \<open>
  For the round trip through exporter and parser: the number of separating commas
  the scan of a line meets from a given quote state, with the state it ends in; the
  number of quote characters of a text; the description as it is exported; and the
  companies whose row comes back as one record of eleven fields. Such a company
  has an organization name; none of its exported text fields contains a line
  break; its website contains no comma; and the cut of the description at 1000
  characters does not fall between the two quotes of a doubled quote.
\<close>

fun separators :: "bool \<Rightarrow> string \<Rightarrow> nat \<times> bool" where
  "separators inQuote [] = (0, inQuote)"
| "separators inQuote (ch # rest) =
     (if ch = dq then separators (\<not> inQuote) rest
      else if ch = comma \<and> \<not> inQuote
        then (Suc (fst (separators inQuote rest)), snd (separators inQuote rest))
      else separators inQuote rest)"

definition quoteCount :: "string \<Rightarrow> nat" where
  "quoteCount s = length (filter (\<lambda>c. c = dq) s)"

definition exportedDescription :: "ScoredCompany \<Rightarrow> string" where
  "exportedDescription c =
     take 1000 (doubleQuotes
       (orElse (raw c ''Full Description'') (orElse (raw c ''Description'') [])))"

definition exportable :: "ScoredCompany \<Rightarrow> bool" where
  "exportable c =
     (raw c ''Organization Name'' \<noteq> None
      \<and> nl \<notin> set (orElse (raw c ''Organization Name'') [])
      \<and> nl \<notin> set (orElse (raw c ''Headquarters Location'') [])
      \<and> nl \<notin> set (orElse (raw c ''Industries'') [])
      \<and> nl \<notin> set (exportedDescription c)
      \<and> nl \<notin> set (orElse (raw c ''Organization Name URL'') [])
      \<and> comma \<notin> set (orElse (raw c ''Organization Name URL'') [])
      \<and> even (quoteCount (exportedDescription c)))"

text \<open>A character that is no comma, quote, line break or white space; and a line
  that the parser keeps as one record of eleven fields.\<close>

definition plainChar :: "char \<Rightarrow> bool" where
  "plainChar c = (c \<noteq> comma \<and> c \<noteq> dq \<and> c \<noteq> nl \<and> \<not> isSpace c)"

definition goodLine :: "string \<Rightarrow> bool" where
  "goodLine l = (nl \<notin> set l \<and> trim l \<noteq> [] \<and> length (parseLine l) = 11)"

section \<open>Properties of the parser\<close>

lemma parseRows_filter:
  "parseRows headers ls data =
     data @ map (mkObj headers) (filter (\<lambda>row. length row = length headers) (map parseLine ls))"
  by (induction ls arbitrary: data) (simp_all add: Let_def)

lemma parseCSV_as_filter:
  "parseCSV text =
     map (mkObj (csvHeaders (csvLines text)))
       (filter (\<lambda>row. length row = length (csvHeaders (csvLines text)))
          (map parseLine (tl (csvLines text))))"
proof (cases "length (csvLines text) < 2")
  case True
  then have "tl (csvLines text) = []"
    by (cases "csvLines text") (auto simp: less_Suc_eq)
  with True show ?thesis
    by (simp add: parseCSV_def)
next
  case False
  then show ?thesis
    by (simp add: parseCSV_def parseRows_filter Let_def)
qed

text \<open>
  Claim C9. The parser never fails, and its result is exactly the records of those
  non-blank data lines (the lines after the header) whose field count equals the
  number of headers, in their order: every other data line is dropped, every such
  line is kept.
\<close>

theorem parseCSV_keeps_exactly_matching_rows:
  "parseCSV text =
     map (mkObj (csvHeaders (csvLines text)))
       (filter (\<lambda>row. length row = length (csvHeaders (csvLines text)))
          (map parseLine (tl (csvLines text))))"
  by (rule parseCSV_as_filter)

section \<open>Properties of the pipeline\<close>

subsection \<open>Sorting and the scored sequence\<close>


lemma set_insertWith: "set (insertWith after x xs) = insert x (set xs)"
  by (induction xs) auto

lemma set_sortWith: "set (sortWith after xs) = set xs"
  by (induction xs) (simp_all add: sortWith_def set_insertWith)

lemma length_insertWith: "length (insertWith after x xs) = Suc (length xs)"
  by (induction xs) auto

lemma length_sortWith: "length (sortWith after xs) = length xs"
  by (induction xs) (simp_all add: sortWith_def length_insertWith)

lemma scoreCompany_sel:
  "raw (scoreCompany d b c idx) = raw c"
  "tmp_fundAmt (scoreCompany d b c idx) = tmp_fundAmt c"
  "tmp_articles (scoreCompany d b c idx) = tmp_articles c"
  "tmp_rank (scoreCompany d b c idx) = tmp_rank c"
  "tmp_rounds (scoreCompany d b c idx) = tmp_rounds c"
  "ident (scoreCompany d b c idx) = ''comp-'' @ showNat idx"
  "scores (scoreCompany d b c idx) = scoresOf b c (detectThemes (companyText (raw c)))"
  "themes (scoreCompany d b c idx) = detectThemes (companyText (raw c))"
  "acquisitionStatus (scoreCompany d b c idx) = acquisitionStatusOf d (raw c)"
  by (simp_all add: scoreCompany_def Let_def TempCompany.extend_def ScoredCompany.fields_def)

lemma toTemp_raw: "raw (toTemp c) = c"
  by (simp add: toTemp_def)

lemma scoredOf_nth:
  assumes "i < length rawData"
  shows "scoredOf d rawData ! i =
    scoreCompany d (batchBounds (map toTemp rawData)) (toTemp (rawData ! i)) i"
  using assms by (simp add: scoredOf_def Let_def)

lemma length_scoredOf: "length (scoredOf d rawData) = length rawData"
  by (simp add: scoredOf_def Let_def)

lemma scoredOf_elem:
  assumes "c \<in> set (scoredOf d rawData)"
  obtains i where "i < length rawData"
    and "c = scoreCompany d (batchBounds (map toTemp rawData)) (toTemp (rawData ! i)) i"
  using assms scoredOf_nth length_scoredOf by (metis in_set_conv_nth)

lemma companies_set: "set (companies (processData d y rawData)) = set (scoredOf d rawData)"
  by (simp add: processData_def Let_def set_sortWith)

subsection \<open>Evaluating the model on concrete inputs\<close>

lemma showNat_numeral:
  "showNat (numeral k) =
     (if (numeral k :: nat) < 10 then [digitChar (numeral k)]
      else showNat (numeral k div 10) @ [digitChar (numeral k mod 10)])"
  by (rule showNat.simps)

lemma showNat_0: "showNat 0 = ''0''"
  by (simp add: showNat.simps [of 0] digitChar_def)

lemma showNat_1: "showNat (Suc 0) = ''1''" "showNat 1 = ''1''"
  by (simp_all add: showNat.simps [of 1] showNat.simps [of "Suc 0"] digitChar_def)

lemmas num_eval = showNat_numeral showNat_0 showNat_1 digitChar_def toFixed_def Let_def
  parseInt_def parseFloat_def isSpace_def isSign_def digitOf_def isDigit_def isLower_def
  isUpper_def valueIn_def

lemmas str_eval = toLowerCase_def lowerChar_def orElse_def startsWith_def removeCommas_def
  comma_def dq_def nl_def

subsection \<open>The stage score\<close>

text \<open>
  Claim C2, as the code has it. The three tests on the lower-cased funding-stage label
  are consecutive assignments, so the LAST rule that matches decides: a label
  containing \<^verbatim>\<open>ipo\<close> or \<^verbatim>\<open>acquired\<close> scores 0.5; otherwise one containing
  \<^verbatim>\<open>series b\<close> or \<^verbatim>\<open>series c\<close> scores 0.9; otherwise one containing
  \<^verbatim>\<open>series a\<close> scores 0.7; anything else, an absent label included, scores 0.3.
\<close>

theorem stageScore_last_match_wins:
  "stageScoreOf l =
     (let stage = toLowerCase (orElse l [])
      in if includesStr stage ''ipo'' \<or> includesStr stage ''acquired'' then 0.5
         else if includesStr stage ''series b'' \<or> includesStr stage ''series c'' then 0.9
         else if includesStr stage ''series a'' then 0.7
         else 0.3)"
  by (simp add: stageScoreOf_def Let_def)

lemma lower_example: "toLowerCase ''Series A IPO'' = ''series a ipo''"
  by (simp add: toLowerCase_def lowerChar_def)

text \<open>The same label under the amended rule: the last match gives 0.5.\<close>

theorem stageScore_last_match_wins_witness:
  "stageScoreOf (Some ''Series A IPO'') = 0.5"
  using stageScore_last_match_wins [of "Some ''Series A IPO''"]
  by (simp add: orElse_def lower_example startsWith_def)

text \<open>The label \<^verbatim>\<open>Series A IPO\<close> contains both \<^verbatim>\<open>series a\<close> and \<^verbatim>\<open>ipo\<close>,
  and its stage score is not the 0.7 of the first rule.\<close>

theorem stageScore_first_match_counterexample:
  "includesStr (toLowerCase ''Series A IPO'') ''series a''
   \<and> includesStr (toLowerCase ''Series A IPO'') ''ipo''
   \<and> stageScoreOf (Some ''Series A IPO'') \<noteq> 0.7"
  by (simp add: stageScoreOf_def orElse_def lower_example startsWith_def)

subsection \<open>Unparseable numbers\<close>

lemma parseInt_abc: "parseInt ''abc'' = NaN"
  by (simp add: num_eval)

lemma parseFloat_abc: "parseFloat ''abc'' = NaN"
  by (simp add: num_eval)

lemma toTemp_abc:
  "toTemp [''Number of Articles'' \<mapsto> ''abc''] =
     \<lparr> raw = [''Number of Articles'' \<mapsto> ''abc''], tmp_fundAmt = Num 0, tmp_articles = NaN,
       tmp_rank = Num 100000, tmp_rounds = Num 1 \<rparr>"
  by (simp add: toTemp_def parseInt_abc orElse_def removeCommas_def comma_def num_eval)


lemma toTemp_all_abc:
  "toTemp [''Total Funding Amount (in USD)'' \<mapsto> ''abc'', ''Number of Articles'' \<mapsto> ''abc'',
           ''CB Rank (Company)'' \<mapsto> ''abc'', ''Number of Funding Rounds'' \<mapsto> ''abc''] =
     \<lparr> raw = [''Total Funding Amount (in USD)'' \<mapsto> ''abc'', ''Number of Articles'' \<mapsto> ''abc'',
           ''CB Rank (Company)'' \<mapsto> ''abc'', ''Number of Funding Rounds'' \<mapsto> ''abc''],
       tmp_fundAmt = NaN, tmp_articles = NaN, tmp_rank = NaN, tmp_rounds = NaN \<rparr>"
  by (simp add: toTemp_def parseInt_abc parseFloat_abc orElse_def removeCommas_def comma_def)

text \<open>
  Claim C3 on the code. A record whose funding amount, article count, rank and round
  count are all the text \<^verbatim>\<open>abc\<close>: none of the four is replaced by a default, each
  is NaN, and the scores computed from them are NaN as well.
\<close>

theorem unparseable_numbers_become_NaN:
  "map (\<lambda>c. (tmp_fundAmt c, tmp_articles c, tmp_rank c, tmp_rounds c,
              funding (scores c), brandTrend (scores c), comprehensive (scores c)))
     (companies (processData dateOf currentYear
        [[''Total Funding Amount (in USD)'' \<mapsto> ''abc'', ''Number of Articles'' \<mapsto> ''abc'',
          ''CB Rank (Company)'' \<mapsto> ''abc'', ''Number of Funding Rounds'' \<mapsto> ''abc'']]))
   = [(NaN, NaN, NaN, NaN, NaN, NaN, NaN)]"
  by (simp add: processData_def scoredOf_def sortWith_def scoreCompany_sel scoresOf_def
      fundingScoreOf_def brandTrendScoreOf_def batchBounds_def mathMax_def mathMin_def
      normalizeJs_def toTemp_all_abc Let_def)

text \<open>The batch-wide maximum is NaN as soon as one record's count is: the record
  beside it, which has no article count at all, loses its brand score too.\<close>

lemma one_abc_spoils_batch:
  "map (\<lambda>c. brandTrend (scores c))
     (scoredOf dateOf [[''Number of Articles'' \<mapsto> ''abc''], Map.empty]) = [NaN, NaN]"
  by (simp add: scoredOf_def scoreCompany_sel scoresOf_def
      brandTrendScoreOf_def batchBounds_def mathMax_def mathMin_def
      normalizeJs_def toTemp_abc Let_def toTemp_def orElse_def num_eval removeCommas_def comma_def)

subsection \<open>Batch bounds and score ranges\<close>


lemma all_Num: "\<forall>x\<in>set xs. x \<noteq> NaN \<Longrightarrow> \<exists>rs. xs = map Num rs"
proof (induction xs)
  case Nil
  then show ?case by simp
next
  case (Cons x xs)
  then obtain rs where "xs = map Num rs" by auto
  moreover from Cons.prems obtain r where "x = Num r" by (cases x) auto
  ultimately have "x # xs = map Num (r # rs)" by simp
  then show ?case by (rule exI [of _ "r # rs"])
qed

lemma mathMax_Num: "mathMax (map Num rs) (Num c) = Num (Max (insert c (set rs)))"
proof (induction rs)
  case Nil
  then show ?case by (simp add: mathMax_def)
next
  case (Cons r rs)
  have "Max (insert r (insert c (set rs))) = max r (Max (insert c (set rs)))"
    by (rule Max_insert) auto
  then have "Max (insert c (set (r # rs))) = max r (Max (insert c (set rs)))"
    by (simp add: insert_commute)
  with Cons show ?case by (simp add: mathMax_def del: Max_insert)
qed

lemma mathMin_Num: "mathMin (map Num rs) (Num c) = Num (Min (insert c (set rs)))"
proof (induction rs)
  case Nil
  then show ?case by (simp add: mathMin_def)
next
  case (Cons r rs)
  have "Min (insert r (insert c (set rs))) = min r (Min (insert c (set rs)))"
    by (rule Min_insert) auto
  then have "Min (insert c (set (r # rs))) = min r (Min (insert c (set rs)))"
    by (simp add: insert_commute)
  with Cons show ?case by (simp add: mathMin_def del: Min_insert)
qed

lemma normalizeJs_Num:
  "normalizeJs (Num v) (Num mn) (Num mx) = Num (if mx = mn then 0 else (v - mn) / (mx - mn))"
  by (simp add: normalizeJs_def)

lemma normalize_unit:
  fixes v mn mx :: real
  assumes "mn \<le> v" "v \<le> mx"
  shows "0 \<le> (if mx = mn then 0 else (v - mn) / (mx - mn))"
    and "(if mx = mn then 0 else (v - mn) / (mx - mn)) \<le> 1"
  using assms by (auto simp: divide_le_eq_1)

lemma stageScoreOf_range: "3 / 10 \<le> stageScoreOf l \<and> stageScoreOf l \<le> 9 / 10"
  by (simp add: stageScoreOf_def Let_def)


lemma batchBounds_Num:
  assumes "map tmp_fundAmt ts = map Num fs" "map tmp_articles ts = map Num ars"
    "map tmp_rank ts = map Num rks" "map tmp_rounds ts = map Num rds"
  shows "batchBounds ts =
    \<lparr> maxFund = Num (Max (insert 1 (set fs))), minFund = Num (Min (insert 0 (set fs))),
      maxArticles = Num (Max (insert 1 (set ars))), maxRounds = Num (Max (insert 1 (set rds))),
      minRank = Num (Min (insert 1 (set rks))), maxRank = Num (Max (insert 100000 (set rks))) \<rparr>"
  by (simp add: batchBounds_def assms mathMax_Num mathMin_Num)

lemma fundingScoreOf_range:
  assumes "tmp_fundAmt c = Num v" "minFund b = Num mn" "maxFund b = Num mx" "mn \<le> v" "v \<le> mx"
    and "tmp_rounds c = Num r" "maxRounds b = Num mr" "0 \<le> r" "r \<le> mr"
  shows "\<exists>f. fundingScoreOf b c = Num f \<and> 0 \<le> f \<and> f \<le> 100"
proof -
  define t1 where "t1 = (if mx = mn then 0 else (v - mn) / (mx - mn))"
  define t2 where "t2 = (if mr = 0 then 0 else (r - 0) / (mr - 0))"
  have b1: "0 \<le> t1" "t1 \<le> 1"
    unfolding t1_def using normalize_unit [OF assms(4,5)] by simp_all
  have b2: "0 \<le> t2" "t2 \<le> 1"
    unfolding t2_def using normalize_unit [OF assms(8,9)] by simp_all
  have "fundingScoreOf b c = Num ((t1 * 0.7 + t2 * 0.3) * 100)"
    by (simp add: fundingScoreOf_def assms(1,2,3,6,7) normalizeJs_Num t1_def t2_def)
  moreover have "0 \<le> (t1 * 0.7 + t2 * 0.3) * 100" "(t1 * 0.7 + t2 * 0.3) * 100 \<le> 100"
    using b1 b2 by simp_all
  ultimately show ?thesis by blast
qed

lemma opsScoreOf_range:
  assumes "nonNegative (parseEmployeeCount (c ''Number of Employees''))"
  shows "\<exists>f. opsScoreOf c = Num f \<and> 0 \<le> f \<and> f \<le> 100"
proof -
  from assms obtain e where e: "parseEmployeeCount (c ''Number of Employees'') = Num e" "0 \<le> e"
    by (auto simp: nonNegative_def split: jsnum.splits)
  define a :: real where "a = (if orElse (c ''Operating Status'') ''Active'' = ''Active'' then 1 else 0)"
  have a: "0 \<le> a" "a \<le> 1" by (simp_all add: a_def)
  have "opsScoreOf c = Num ((min e 500 / 500 * 0.6 + a * 0.4) * 100)"
    by (simp add: opsScoreOf_def e a_def)
  moreover have "0 \<le> (min e 500 / 500 * 0.6 + a * 0.4) * 100"
    using e(2) a by simp
  moreover have "(min e 500 / 500 * 0.6 + a * 0.4) * 100 \<le> 100"
  proof -
    have "min e 500 / 500 \<le> 1" by simp
    with a show ?thesis by simp
  qed
  ultimately show ?thesis by blast
qed

lemma brandTrendScoreOf_range:
  assumes "tmp_rank c = Num v" "minRank b = Num mn" "maxRank b = Num mx" "mn \<le> v" "v \<le> mx"
    and "tmp_articles c = Num r" "maxArticles b = Num mr" "0 \<le> r" "r \<le> mr"
  shows "\<exists>f. brandTrendScoreOf b c t = Num f \<and> 0 \<le> f \<and> f \<le> 100"
proof -
  define t1 where "t1 = (if mx = mn then 0 else (v - mn) / (mx - mn))"
  define t2 where "t2 = (if mr = 0 then 0 else (r - 0) / (mr - 0))"
  define kb :: real where "kb = (if anyTheme t then 0.2 else 0)"
  have b1: "0 \<le> t1" "t1 \<le> 1"
    unfolding t1_def using normalize_unit [OF assms(4,5)] by simp_all
  have b2: "0 \<le> t2" "t2 \<le> 1"
    unfolding t2_def using normalize_unit [OF assms(8,9)] by simp_all
  have kb: "0 \<le> kb" by (simp add: kb_def)
  have "brandTrendScoreOf b c t = Num (min ((1 - t1) * 0.5 + t2 * 0.3 + kb) 1 * 100)"
    by (simp add: brandTrendScoreOf_def assms(1,2,3,6,7) normalizeJs_Num t1_def t2_def kb_def)
  moreover have "0 \<le> min ((1 - t1) * 0.5 + t2 * 0.3 + kb) 1 * 100"
    using b1 b2 kb by simp
  moreover have "min ((1 - t1) * 0.5 + t2 * 0.3 + kb) 1 * 100 \<le> 100"
    by simp
  ultimately show ?thesis by blast
qed

lemma potentialScoreOf_range:
  assumes "0 \<le> f" "f \<le> 100" "0 \<le> br" "br \<le> 100" "3 / 10 \<le> s" "s \<le> 9 / 10"
  shows "\<exists>p. potentialScoreOf s (Num f) (Num br) = Num p \<and> 0 \<le> p \<and> p \<le> 100"
proof -
  have "potentialScoreOf s (Num f) (Num br) = Num ((s * 0.4 + f / 100 * 0.3 + br / 100 * 0.3) * 100)"
    by (simp add: potentialScoreOf_def)
  moreover have "0 \<le> (s * 0.4 + f / 100 * 0.3 + br / 100 * 0.3) * 100"
    using assms by simp
  moreover have "(s * 0.4 + f / 100 * 0.3 + br / 100 * 0.3) * 100 \<le> 100"
    using assms by simp
  ultimately show ?thesis by blast
qed



lemma in_map_Num:
  assumes "map g ts = map Num rs" "t \<in> set ts"
  obtains r where "g t = Num r" "r \<in> set rs"
proof -
  from assms(2) have "g t \<in> set (map g ts)" by simp
  then have "g t \<in> Num ` set rs" by (simp add: assms(1))
  then show ?thesis using that by auto
qed

text \<open>
  Where the scores do stay in range. On the modelled numbers, for a batch whose
  records all have a funding amount and a rank that read as numbers, and an article
  count, a round count and a headcount that read as numbers that are not negative,
  the five scores of every produced company are numbers in [0, 100], and the
  comprehensive score is the arithmetic mean of the other four. Nothing in the code
  enforces the condition on the counts, as the evaluation after this lemma shows.
\<close>

lemma scores_in_range_and_mean:
  assumes "\<forall>r \<in> set rawData. plausibleNumbers r"
  shows "\<forall>c \<in> set (companies (processData dateOf currentYear rawData)).
    \<exists>f ops br p.
      scores c = \<lparr> funding = Num f, operations = Num ops, brandTrend = Num br,
                   potential = Num p, comprehensive = Num ((f + ops + br + p) / 4) \<rparr>
      \<and> 0 \<le> f \<and> f \<le> 100 \<and> 0 \<le> ops \<and> ops \<le> 100 \<and> 0 \<le> br \<and> br \<le> 100
      \<and> 0 \<le> p \<and> p \<le> 100
      \<and> 0 \<le> (f + ops + br + p) / 4 \<and> (f + ops + br + p) / 4 \<le> 100"
proof
  fix c
  assume "c \<in> set (companies (processData dateOf currentYear rawData))"
  then have "c \<in> set (scoredOf dateOf rawData)"
    by (simp add: companies_set)
  then obtain i where i: "i < length rawData"
    and c: "c = scoreCompany dateOf (batchBounds (map toTemp rawData)) (toTemp (rawData ! i)) i"
    by (rule scoredOf_elem)
  define ts where "ts = map toTemp rawData"
  define b where "b = batchBounds ts"
  define rc where "rc = rawData ! i"
  define tc where "tc = toTemp rc"
  define t where "t = detectThemes (companyText rc)"
  have rc: "rc \<in> set rawData" using i by (simp add: rc_def)
  have tc: "tc \<in> set ts" using rc by (simp add: tc_def ts_def)
  have pl: "\<forall>x \<in> set ts. tmp_fundAmt x \<noteq> NaN \<and> tmp_rank x \<noteq> NaN
      \<and> nonNegative (tmp_articles x) \<and> nonNegative (tmp_rounds x)"
    using assms by (auto simp: ts_def plausibleNumbers_def)
  have nn: "nonNegative x \<Longrightarrow> x \<noteq> NaN" for x
    by (auto simp: nonNegative_def)
  obtain fs where fs: "map tmp_fundAmt ts = map Num fs"
    using all_Num [of "map tmp_fundAmt ts"] pl by auto
  obtain ars where ars: "map tmp_articles ts = map Num ars"
    using all_Num [of "map tmp_articles ts"] pl nn by auto
  obtain rks where rks: "map tmp_rank ts = map Num rks"
    using all_Num [of "map tmp_rank ts"] pl by auto
  obtain rds where rds: "map tmp_rounds ts = map Num rds"
    using all_Num [of "map tmp_rounds ts"] pl nn by auto
  note bb = batchBounds_Num [OF fs ars rks rds, folded b_def]
  obtain v where v: "tmp_fundAmt tc = Num v" "v \<in> set fs"
    using in_map_Num [OF fs tc] by blast
  obtain a where a: "tmp_articles tc = Num a" "a \<in> set ars"
    using in_map_Num [OF ars tc] by blast
  obtain k where k: "tmp_rank tc = Num k" "k \<in> set rks"
    using in_map_Num [OF rks tc] by blast
  obtain r where r: "tmp_rounds tc = Num r" "r \<in> set rds"
    using in_map_Num [OF rds tc] by blast
  have a0: "0 \<le> a" using pl tc a(1) by (auto simp: nonNegative_def)
  have r0: "0 \<le> r" using pl tc r(1) by (auto simp: nonNegative_def)
  have emp: "nonNegative (parseEmployeeCount (raw tc ''Number of Employees''))"
    using assms rc by (simp add: plausibleNumbers_def tc_def toTemp_raw)
  obtain f where f: "fundingScoreOf b tc = Num f" "0 \<le> f" "f \<le> 100"
    using fundingScoreOf_range [of tc v b "Min (insert 0 (set fs))" "Max (insert 1 (set fs))"
        r "Max (insert 1 (set rds))"] v r r0
    by (auto simp: bb)
  obtain ops where ops: "opsScoreOf (raw tc) = Num ops" "0 \<le> ops" "ops \<le> 100"
    using opsScoreOf_range [of "raw tc"] emp by blast
  obtain br where br: "brandTrendScoreOf b tc t = Num br" "0 \<le> br" "br \<le> 100"
    using brandTrendScoreOf_range [of tc k b "Min (insert 1 (set rks))"
        "Max (insert 100000 (set rks))" a "Max (insert 1 (set ars))" t] k a a0
    by (auto simp: bb)
  obtain p where p: "potentialScoreOf (stageScoreOf (raw tc ''Last Funding Type'')) (Num f) (Num br) = Num p"
      "0 \<le> p" "p \<le> 100"
    using potentialScoreOf_range [OF f(2,3) br(2,3)] stageScoreOf_range by blast
  have "scores c = scoresOf b tc t"
    by (simp add: c scoreCompany_sel b_def ts_def tc_def rc_def t_def toTemp_raw)
  also have "\<dots> = \<lparr> funding = Num f, operations = Num ops, brandTrend = Num br,
      potential = Num p, comprehensive = Num ((f + ops + br + p) / 4) \<rparr>"
    by (simp add: scoresOf_def Let_def f(1) ops(1) br(1) p(1))
  finally have "scores c = \<lparr> funding = Num f, operations = Num ops, brandTrend = Num br,
      potential = Num p, comprehensive = Num ((f + ops + br + p) / 4) \<rparr>" .
  moreover have "0 \<le> (f + ops + br + p) / 4" "(f + ops + br + p) / 4 \<le> 100"
    using f ops br p by simp_all
  ultimately show "\<exists>f ops br p.
      scores c = \<lparr> funding = Num f, operations = Num ops, brandTrend = Num br,
                   potential = Num p, comprehensive = Num ((f + ops + br + p) / 4) \<rparr>
      \<and> 0 \<le> f \<and> f \<le> 100 \<and> 0 \<le> ops \<and> ops \<le> 100 \<and> 0 \<le> br \<and> br \<le> 100
      \<and> 0 \<le> p \<and> p \<le> 100
      \<and> 0 \<le> (f + ops + br + p) / 4 \<and> (f + ops + br + p) / 4 \<le> 100"
    using f ops br p by blast
qed



lemmas rec_eval = toTemp_def orElse_def removeCommas_def comma_def num_eval
  parseEmployeeCount_def splitOn_def nonNegative_def plausibleNumbers_def

text \<open>
  Claim C1 on the code. The claim is that the five scores of every produced company
  lie in [0, 100], and the declaration of the score fields says the same of each of
  them (\<^verbatim>\<open>funding: number; // 0-100\<close> and so on). The code does not keep to it:
  \<^verbatim>\<open>normalize\<close>, which is meant to give a value between 0 and 1, is applied to the
  round count and the article count against the fixed lower bound 0, and nothing
  clamps its result. For the batch of one record with the round count \<^verbatim>\<open>-5\<close>
  the batch maximum of the rounds is 1, the normalised round count is -5, and the
  funding score is 0.3 * (-5) * 100 = -150.
\<close>

theorem negative_rounds_funding_score:
  "map (\<lambda>c. funding (scores c))
     (companies (processData (\<lambda>s. None) 2025 [[''Number of Funding Rounds'' \<mapsto> ''-5'']]))
   = [Num (- 150)]"
  by (simp add: processData_def scoredOf_def sortWith_def scoreCompany_sel scoresOf_def
      fundingScoreOf_def batchBounds_def mathMax_def mathMin_def normalizeJs_def rec_eval)

lemma plausible_example1:
  "plausibleNumbers [''Total Funding Amount (in USD)'' \<mapsto> ''1000000'',
      ''Number of Funding Rounds'' \<mapsto> ''2'', ''Number of Employees'' \<mapsto> ''11-50'']"
  by (simp add: rec_eval)

lemma plausible_example2:
  "plausibleNumbers [''Total Funding Amount (in USD)'' \<mapsto> ''0'',
      ''Number of Funding Rounds'' \<mapsto> ''2'', ''CB Rank (Company)'' \<mapsto> ''1,234'']"
  by (simp add: rec_eval)

text \<open>A batch of two records without a negative count, and the range of its scores.\<close>

lemma scores_in_range_and_mean_example:
  "list_all plausibleNumbers
     [[''Total Funding Amount (in USD)'' \<mapsto> ''1000000'',
       ''Number of Funding Rounds'' \<mapsto> ''2'', ''Number of Employees'' \<mapsto> ''11-50''],
      [''Total Funding Amount (in USD)'' \<mapsto> ''0'',
       ''Number of Funding Rounds'' \<mapsto> ''2'', ''CB Rank (Company)'' \<mapsto> ''1,234'']]
   \<and> list_all (\<lambda>c. \<exists>f ops br p.
      scores c = \<lparr> funding = Num f, operations = Num ops, brandTrend = Num br,
                   potential = Num p, comprehensive = Num ((f + ops + br + p) / 4) \<rparr>
      \<and> 0 \<le> f \<and> f \<le> 100 \<and> 0 \<le> ops \<and> ops \<le> 100 \<and> 0 \<le> br \<and> br \<le> 100
      \<and> 0 \<le> p \<and> p \<le> 100
      \<and> 0 \<le> (f + ops + br + p) / 4 \<and> (f + ops + br + p) / 4 \<le> 100)
     (companies (processData (\<lambda>s. None) 2025
       [[''Total Funding Amount (in USD)'' \<mapsto> ''1000000'',
         ''Number of Funding Rounds'' \<mapsto> ''2'', ''Number of Employees'' \<mapsto> ''11-50''],
        [''Total Funding Amount (in USD)'' \<mapsto> ''0'',
         ''Number of Funding Rounds'' \<mapsto> ''2'', ''CB Rank (Company)'' \<mapsto> ''1,234'']]))"
proof -
  have h: "\<forall>r \<in> set [[''Total Funding Amount (in USD)'' \<mapsto> ''1000000'',
       ''Number of Funding Rounds'' \<mapsto> ''2'', ''Number of Employees'' \<mapsto> ''11-50''],
      [''Total Funding Amount (in USD)'' \<mapsto> ''0'',
       ''Number of Funding Rounds'' \<mapsto> ''2'', ''CB Rank (Company)'' \<mapsto> ''1,234'']].
      plausibleNumbers r"
    using plausible_example1 plausible_example2 by simp
  show ?thesis
    unfolding list_all_iff
    using h scores_in_range_and_mean [OF h, of "\<lambda>s. None" 2025] by blast
qed

subsection \<open>The brand score\<close>


lemma rank_bounds_Num:
  assumes "map tmp_rank ts = map Num rks"
  shows "minRank (batchBounds ts) = Num (Min (insert 1 (set rks)))"
    and "maxRank (batchBounds ts) = Num (Max (insert 100000 (set rks)))"
  by (simp_all add: batchBounds_def assms mathMax_Num mathMin_Num)

lemma article_bound_Num:
  assumes "map tmp_articles ts = map Num ars"
  shows "maxArticles (batchBounds ts) = Num (Max (insert 1 (set ars)))"
  by (simp add: batchBounds_def assms mathMax_Num)

text \<open>
  Claim C4, as the code has it. In a batch whose ranks and article counts all read as
  numbers, every company's brand score is
  100 * min(1, 0.5 * (1 - normalize(rank, minRank, maxRank))
  + 0.3 * normalize(articles, 0, maxArticles) + keywordBonus),
  where minRank is the least of 1 and the ranks of the batch, maxRank the greatest
  of 100000 and the ranks, maxArticles the greatest of 1 and the article counts, and
  keywordBonus is 0.2 when one of the six theme flags is set and 0 otherwise: the
  bonus is added as it is, not weighted by 0.2.
\<close>

theorem brandTrend_formula:
  assumes "map (\<lambda>r. tmp_rank (toTemp r)) rawData = map Num rks"
    and "map (\<lambda>r. tmp_articles (toTemp r)) rawData = map Num ars"
  shows "\<forall>c \<in> set (companies (processData dateOf currentYear rawData)).
    \<exists>k a. tmp_rank c = Num k \<and> tmp_articles c = Num a
      \<and> brandTrend (scores c) =
          Num (100 * min 1
            (0.5 * (1 - normalizeReal k (Min (insert 1 (set rks))) (Max (insert 100000 (set rks))))
             + 0.3 * normalizeReal a 0 (Max (insert 1 (set ars)))
             + (if anyTheme (themes c) then 0.2 else 0)))"
proof
  fix c
  assume "c \<in> set (companies (processData dateOf currentYear rawData))"
  then have "c \<in> set (scoredOf dateOf rawData)"
    by (simp add: companies_set)
  then obtain i where i: "i < length rawData"
    and c: "c = scoreCompany dateOf (batchBounds (map toTemp rawData)) (toTemp (rawData ! i)) i"
    by (rule scoredOf_elem)
  define ts where "ts = map toTemp rawData"
  define tc where "tc = toTemp (rawData ! i)"
  have tc: "tc \<in> set ts" using i by (simp add: tc_def ts_def)
  have rks: "map tmp_rank ts = map Num rks" using assms(1) by (simp add: ts_def comp_def)
  have ars: "map tmp_articles ts = map Num ars" using assms(2) by (simp add: ts_def comp_def)
  obtain k where k: "tmp_rank tc = Num k"
    using in_map_Num [OF rks tc] by blast
  obtain a where a: "tmp_articles tc = Num a"
    using in_map_Num [OF ars tc] by blast
  define t1 where "t1 = normalizeReal k (Min (insert 1 (set rks))) (Max (insert 100000 (set rks)))"
  define t2 where "t2 = normalizeReal a 0 (Max (insert 1 (set ars)))"
  define kb :: real where "kb = (if anyTheme (themes c) then 0.2 else 0)"
  have "brandTrend (scores c) = brandTrendScoreOf (batchBounds ts) tc (themes c)"
    by (simp add: c scoreCompany_sel scoresOf_def Let_def ts_def tc_def)
  also have "\<dots> = Num (min ((1 - t1) * 0.5 + t2 * 0.3 + kb) 1 * 100)"
    by (simp add: brandTrendScoreOf_def Let_def k a rank_bounds_Num [OF rks]
        article_bound_Num [OF ars] normalizeJs_Num normalizeReal_def t1_def t2_def kb_def)
  also have "min ((1 - t1) * 0.5 + t2 * 0.3 + kb) 1 * 100
      = 100 * min 1 (0.5 * (1 - t1) + 0.3 * t2 + kb)"
    by (simp only: min.commute mult.commute)
  finally have "brandTrend (scores c) = Num (100 * min 1
            (0.5 * (1 - normalizeReal k (Min (insert 1 (set rks))) (Max (insert 100000 (set rks))))
             + 0.3 * normalizeReal a 0 (Max (insert 1 (set ars)))
             + (if anyTheme (themes c) then 0.2 else 0)))"
    by (simp only: t1_def t2_def kb_def)
  moreover have "tmp_rank c = Num k" "tmp_articles c = Num a"
    by (simp_all add: c scoreCompany_sel k [unfolded tc_def] a [unfolded tc_def])
  ultimately show "\<exists>k a. tmp_rank c = Num k \<and> tmp_articles c = Num a
      \<and> brandTrend (scores c) =
          Num (100 * min 1
            (0.5 * (1 - normalizeReal k (Min (insert 1 (set rks))) (Max (insert 100000 (set rks))))
             + 0.3 * normalizeReal a 0 (Max (insert 1 (set ars)))
             + (if anyTheme (themes c) then 0.2 else 0)))"
    by blast
qed

lemmas theme_eval = detectThemes_def companyText_def includesAny_def isWordChar_def anyTheme_def
  toLowerCase_def lowerChar_def startsWith_def

lemmas score_eval = processData_def scoredOf_def sortWith_def scoreCompany_sel scoresOf_def
  fundingScoreOf_def opsScoreOf_def brandTrendScoreOf_def potentialScoreOf_def stageScoreOf_def
  batchBounds_def mathMax_def mathMin_def normalizeJs_def

text \<open>
  Two batches on which the code and the formula of the specification differ. In the
  first the bounds agree (ranks 1 and 100000) and the company with a theme scores 20
  where the formula gives 4; in the second the only rank is 50, the code normalises
  against the lower bound 1 and the formula against 50.
\<close>

theorem brandTrend_formula_counterexample:
  "map (\<lambda>c. (raw c ''CB Rank (Company)'', brandTrend (scores c)))
     (companies (processData (\<lambda>s. None) 2025
        [[''CB Rank (Company)'' \<mapsto> ''100000'', ''Description'' \<mapsto> ''ai''],
         [''CB Rank (Company)'' \<mapsto> ''1'', ''Number of Articles'' \<mapsto> ''1'']]))
     = [(Some ''1'', Num 80), (Some ''100000'', Num 20)]
   \<and> brandTrend_as_specified 100000 0 True [100000, 1] [0, 1] = 4
   \<and> map (\<lambda>c. brandTrend (scores c))
       (companies (processData (\<lambda>s. None) 2025 [[''CB Rank (Company)'' \<mapsto> ''50'']]))
     = [Num (4997500 / 99999)]
   \<and> brandTrend_as_specified 50 0 False [50] [0] = 50"
  by (simp add: score_eval theme_eval rec_eval brandTrend_as_specified_def normalizeReal_def)


text \<open>The first of these batches under the amended formula.\<close>

theorem brandTrend_formula_witness:
  "map (\<lambda>r. tmp_rank (toTemp r))
      [[''CB Rank (Company)'' \<mapsto> ''100000'', ''Description'' \<mapsto> ''ai''],
       [''CB Rank (Company)'' \<mapsto> ''1'', ''Number of Articles'' \<mapsto> ''1'']] = map Num [100000, 1]
   \<and> map (\<lambda>r. tmp_articles (toTemp r))
      [[''CB Rank (Company)'' \<mapsto> ''100000'', ''Description'' \<mapsto> ''ai''],
       [''CB Rank (Company)'' \<mapsto> ''1'', ''Number of Articles'' \<mapsto> ''1'']] = map Num [0, 1]
   \<and> list_all (\<lambda>c. \<exists>k a. tmp_rank c = Num k \<and> tmp_articles c = Num a
      \<and> brandTrend (scores c) =
          Num (100 * min 1
            (0.5 * (1 - normalizeReal k (Min (insert 1 (set [100000, 1])))
                         (Max (insert 100000 (set [100000, 1]))))
             + 0.3 * normalizeReal a 0 (Max (insert 1 (set [0, 1])))
             + (if anyTheme (themes c) then 0.2 else 0))))
      (companies (processData (\<lambda>s. None) 2025
        [[''CB Rank (Company)'' \<mapsto> ''100000'', ''Description'' \<mapsto> ''ai''],
         [''CB Rank (Company)'' \<mapsto> ''1'', ''Number of Articles'' \<mapsto> ''1'']]))"
proof -
  have h1: "map (\<lambda>r. tmp_rank (toTemp r))
      [[''CB Rank (Company)'' \<mapsto> ''100000'', ''Description'' \<mapsto> ''ai''],
       [''CB Rank (Company)'' \<mapsto> ''1'', ''Number of Articles'' \<mapsto> ''1'']] = map Num [100000, 1]"
    by (simp add: rec_eval)
  have h2: "map (\<lambda>r. tmp_articles (toTemp r))
      [[''CB Rank (Company)'' \<mapsto> ''100000'', ''Description'' \<mapsto> ''ai''],
       [''CB Rank (Company)'' \<mapsto> ''1'', ''Number of Articles'' \<mapsto> ''1'']] = map Num [0, 1]"
    by (simp add: rec_eval)
  show ?thesis
    unfolding list_all_iff
    using h1 h2 brandTrend_formula [OF h1 h2, of "\<lambda>s. None" 2025] by blast
qed

section \<open>Properties of the exporter\<close>


text \<open>
  The text fields of the row exported for a company that has an organization name,
  as the row literal of the exporter builds them.
\<close>

lemma exportRow_fields:
  assumes "raw c ''Organization Name'' = Some orgName"
  shows "\<exists>row. exportRow c idx = Inr row \<and> length row = 11
    \<and> row ! 1 = [dq] @ doubleQuotes orgName @ [dq]
    \<and> row ! 7 = [dq] @ doubleQuotes (orElse (raw c ''Headquarters Location'') []) @ [dq]
    \<and> row ! 8 = [dq] @ doubleQuotes (orElse (raw c ''Industries'') []) @ [dq]
    \<and> row ! 9 = [dq] @ take 1000 (doubleQuotes
          (orElse (raw c ''Full Description'') (orElse (raw c ''Description'') []))) @ [dq]
    \<and> row ! 10 = orElse (raw c ''Organization Name URL'') []"
  using assms by (simp add: exportRow_def quoted_def)

lemmas export_eval = exportCompaniesToCSV_def exportRow_def exportHeaders_def quoted_def
  doubleQuotes_def dq_def nl_def comma_def

text \<open>
  Claim C5 on the code. The claim is that every textual field of every exported row,
  the website among them, is wrapped in quotes with its inner quotes doubled. The
  row literal of the exporter does so for the organization name, the location, the
  industries and the description, and writes the website, the last field of the
  same literal, as it is. The text exported for one company named \<^verbatim>\<open>Acme\<close> with
  the website \<^verbatim>\<open>http://a.b\<close>: the name and the three empty text fields stand
  between quotes, the address does not.
\<close>

theorem website_exported_bare:
  "exportCompaniesToCSV (companies (processData (\<lambda>s. None) 2025
      [[''Organization Name'' \<mapsto> ''Acme'', ''Organization Name URL'' \<mapsto> ''http://a.b'']]))
   = Inr (''Rank,Organization Name,Comprehensive Score,Potential Score,Funding Score,''
          @ ''Operations Score,Brand Score,Headquarters Location,Industries,Description,Website''
          @ [nl] @ ''1,'' @ [dq] @ ''Acme'' @ [dq] @ '',22.75,21.00,30.00,40.00,0.00,''
          @ [dq, dq] @ '','' @ [dq, dq] @ '','' @ [dq, dq] @ '',http://a.b'')"
  by (simp add: score_eval theme_eval rec_eval export_eval)


text \<open>A company whose name contains quotes, and the fields of its row.\<close>

lemma exportRow_fields_example:
  "raw (scoreCompany (\<lambda>s. None) (batchBounds [])
          (toTemp [''Organization Name'' \<mapsto> ''Acme '' @ [dq] @ ''A'' @ [dq]]) 0)
      ''Organization Name'' = Some (''Acme '' @ [dq] @ ''A'' @ [dq])
   \<and> (\<exists>row. exportRow (scoreCompany (\<lambda>s. None) (batchBounds [])
          (toTemp [''Organization Name'' \<mapsto> ''Acme '' @ [dq] @ ''A'' @ [dq]]) 0) 0 = Inr row
      \<and> length row = 11
      \<and> row ! 1 = [dq] @ ''Acme '' @ [dq, dq] @ ''A'' @ [dq, dq] @ [dq]
      \<and> row ! 7 = [dq, dq] \<and> row ! 8 = [dq, dq] \<and> row ! 9 = [dq, dq] \<and> row ! 10 = [])"
proof -
  have h: "raw (scoreCompany (\<lambda>s. None) (batchBounds [])
          (toTemp [''Organization Name'' \<mapsto> ''Acme '' @ [dq] @ ''A'' @ [dq]]) 0)
      ''Organization Name'' = Some (''Acme '' @ [dq] @ ''A'' @ [dq])"
    by (simp add: scoreCompany_sel toTemp_raw)
  show ?thesis
    using h exportRow_fields [OF h, of 0]
    by (simp add: scoreCompany_sel toTemp_raw orElse_def doubleQuotes_def dq_def)
qed

section \<open>Properties of the investor aggregator\<close>



lemma map_fst_incrCount: "map fst (incrCount k tc) = map fst tc"
  by (induction tc) (auto simp: incrCount_def)

lemma map_fst_fold_incrCount: "map fst (fold incrCount ks tc) = map fst tc"
  by (induction ks arbitrary: tc) (simp_all add: map_fst_incrCount)

lemma length_mapSet: "length (mapSet k v ps) \<le> Suc (length ps)"
  by (induction ps) auto

lemma goodAcc_new: "goodAcc newInvestor"
  by (simp add: goodAcc_def newInvestor_def zeroCounts_def themeNames_def)

lemma goodAcc_bump: "goodAcc e \<Longrightarrow> goodAcc (bumpInvestor c e)"
  using length_mapSet [of "raw c ''Organization Name''" "activeThemesOf (themes c)" "acc_portfolio e"]
  by (simp add: goodAcc_def bumpInvestor_def map_fst_fold_incrCount)

lemma goodAcc_addInvestor:
  assumes "\<forall>p \<in> set m. goodAcc (snd p)"
  shows "\<forall>p \<in> set (addInvestor c m invName). goodAcc (snd p)"
  using assms goodAcc_new goodAcc_bump
  by (auto simp: addInvestor_def Let_def split: if_splits)

lemma goodAcc_foldl_addInvestor:
  assumes "\<forall>p \<in> set m. goodAcc (snd p)"
  shows "\<forall>p \<in> set (foldl (addInvestor c) m invs). goodAcc (snd p)"
  using assms
proof (induction invs arbitrary: m)
  case Nil
  then show ?case by simp
next
  case (Cons i invs)
  from goodAcc_addInvestor [OF Cons.prems]
  have "\<forall>p \<in> set (addInvestor c m i). goodAcc (snd p)" .
  from Cons.IH [OF this] show ?case by simp
qed

lemma goodAcc_foldl_companies:
  assumes "\<forall>p \<in> set m. goodAcc (snd p)"
  shows "\<forall>p \<in> set (foldl (\<lambda>m c. foldl (addInvestor c) m (extractInvestors (raw c))) m cs).
    goodAcc (snd p)"
  using assms
proof (induction cs arbitrary: m)
  case Nil
  then show ?case by simp
next
  case (Cons c cs)
  from goodAcc_foldl_addInvestor [OF Cons.prems]
  have "\<forall>p \<in> set (foldl (addInvestor c) m (extractInvestors (raw c))). goodAcc (snd p)" .
  from Cons.IH [OF this] show ?case by simp
qed

lemma goodAcc_investorMapOf: "\<forall>p \<in> set (investorMapOf scored). goodAcc (snd p)"
  unfolding investorMapOf_def by (rule goodAcc_foldl_companies) simp

lemma investors_from_map:
  assumes "s \<in> set (investorsOf scored)"
  obtains nm d where "(nm, d) \<in> set (investorMapOf scored)" "s = mkInvestor (nm, d)"
proof -
  from assms have "s \<in> set (sortWith (\<lambda>a b. 0 < int (count b) - int (count a))
       (map mkInvestor (investorMapOf scored)))"
    unfolding investorsOf_def by (rule in_set_takeD)
  then have "s \<in> mkInvestor ` set (investorMapOf scored)"
    by (simp add: set_sortWith)
  then show ?thesis using that by auto
qed

lemma investors_processData: "investors (processData d y rawData) = investorsOf (scoredOf d rawData)"
  by (simp add: processData_def Let_def)

text \<open>
  Claim C10. For every investor statistic that \<^verbatim>\<open>processData\<close> produces, the count
  is at least the length of the portfolio: the count grows by one for every company
  record that names the investor, the portfolio is keyed by company name.
\<close>

theorem count_at_least_portfolio:
  "\<forall>s \<in> set (investors (processData dateOf currentYear rawData)).
     length (portfolio s) \<le> count s"
proof
  fix s
  assume "s \<in> set (investors (processData dateOf currentYear rawData))"
  then have "s \<in> set (investorsOf (scoredOf dateOf rawData))"
    by (simp add: investors_processData)
  then obtain nm d where nd: "(nm, d) \<in> set (investorMapOf (scoredOf dateOf rawData))"
    and s: "s = mkInvestor (nm, d)"
    by (rule investors_from_map)
  from goodAcc_investorMapOf nd have "goodAcc d" by fastforce
  then show "length (portfolio s) \<le> count s"
    by (simp add: s mkInvestor_def goodAcc_def)
qed


lemmas inv_eval = investorsOf_def investorMapOf_def addInvestor_def bumpInvestor_def mkInvestor_def
  newInvestor_def zeroCounts_def extractInvestors_def dedupe_def activeThemesOf_def incrCount_def
  sortedThemes_def trim_def stripQuotes_def splitOn_def

text \<open>Two records with the same organization name and the same investor: one
  portfolio entry, a count of two.\<close>

lemma investors_example:
  "map (\<lambda>s. (name s, count s, length (portfolio s)))
     (investors (processData (\<lambda>s. None) 2025
        [[''Organization Name'' \<mapsto> ''Acme'', ''Investors'' \<mapsto> ''Sequoia''],
         [''Organization Name'' \<mapsto> ''Acme'', ''Lead Investors'' \<mapsto> ''Sequoia'']]))
   = [(''Sequoia'', 2, 1)]"
  by (simp add: investors_processData scoredOf_def scoreCompany_sel toTemp_raw sortWith_def
      inv_eval theme_eval orElse_def dq_def comma_def isSpace_def Let_def)

theorem count_at_least_portfolio_witness:
  "list_all (\<lambda>s. length (portfolio s) \<le> count s)
     (investors (processData (\<lambda>s. None) 2025
        [[''Organization Name'' \<mapsto> ''Acme'', ''Investors'' \<mapsto> ''Sequoia''],
         [''Organization Name'' \<mapsto> ''Acme'', ''Lead Investors'' \<mapsto> ''Sequoia'']]))
   \<and> map (\<lambda>s. (name s, count s, length (portfolio s)))
     (investors (processData (\<lambda>s. None) 2025
        [[''Organization Name'' \<mapsto> ''Acme'', ''Investors'' \<mapsto> ''Sequoia''],
         [''Organization Name'' \<mapsto> ''Acme'', ''Lead Investors'' \<mapsto> ''Sequoia'']]))
     = [(''Sequoia'', 2, 1)]"
  using count_at_least_portfolio [of "\<lambda>s. None" 2025
        "[[''Organization Name'' \<mapsto> ''Acme'', ''Investors'' \<mapsto> ''Sequoia''],
         [''Organization Name'' \<mapsto> ''Acme'', ''Lead Investors'' \<mapsto> ''Sequoia'']]"]
    investors_example
  unfolding list_all_iff by blast

subsection \<open>The top themes of an investor\<close>


lemma insertWith_lex:
  fixes f :: "'a \<Rightarrow> nat" and g :: "'a \<Rightarrow> nat"
  assumes "sorted_wrt (\<lambda>a b. f b < f a \<or> (f a = f b \<and> g a < g b)) ys"
    and "\<forall>y \<in> set ys. g x < g y"
  shows "sorted_wrt (\<lambda>a b. f b < f a \<or> (f a = f b \<and> g a < g b))
    (insertWith (\<lambda>a b. 0 < int (f b) - int (f a)) x ys)"
  using assms
proof (induction ys)
  case Nil
  then show ?case by simp
next
  case (Cons y ys)
  show ?case
  proof (cases "f x < f y")
    case True
    with Cons show ?thesis
      by (auto simp: set_insertWith)
  next
    case False
    with Cons.prems show ?thesis
      by (fastforce)
  qed
qed

lemma sortWith_lex:
  fixes f :: "'a \<Rightarrow> nat" and g :: "'a \<Rightarrow> nat"
  assumes "sorted_wrt (\<lambda>a b. g a < g b) xs"
  shows "sorted_wrt (\<lambda>a b. f b < f a \<or> (f a = f b \<and> g a < g b))
    (sortWith (\<lambda>a b. 0 < int (f b) - int (f a)) xs)"
  using assms
proof (induction xs)
  case Nil
  then show ?case by (simp add: sortWith_def)
next
  case (Cons x xs)
  then have "sorted_wrt (\<lambda>a b. f b < f a \<or> (f a = f b \<and> g a < g b))
      (sortWith (\<lambda>a b. 0 < int (f b) - int (f a)) xs)"
    by simp
  moreover have "\<forall>y \<in> set (sortWith (\<lambda>a b. 0 < int (f b) - int (f a)) xs). g x < g y"
    using Cons.prems by (simp add: set_sortWith)
  ultimately have "sorted_wrt (\<lambda>a b. f b < f a \<or> (f a = f b \<and> g a < g b))
      (insertWith (\<lambda>a b. 0 < int (f b) - int (f a)) x (sortWith (\<lambda>a b. 0 < int (f b) - int (f a)) xs))"
    by (rule insertWith_lex)
  then show ?case by (simp add: sortWith_def)
qed

lemma priority_increasing: "sorted_wrt (\<lambda>a b. priority a < priority b) themeNames"
  by (simp add: themeNames_def priority_def)

lemma distinct_themeNames: "distinct themeNames"
  by (simp add: themeNames_def)

lemma tallyOf_entry:
  assumes "map fst tc = themeNames" "p \<in> set tc"
  shows "tallyOf tc (fst p) = snd p" and "fst p \<in> set themeNames"
proof -
  have "distinct (map fst tc)" using assms(1) distinct_themeNames by simp
  then have "map_of tc (fst p) = Some (snd p)" using assms(2) by simp
  then show "tallyOf tc (fst p) = snd p" by (simp add: tallyOf_def)
  from assms show "fst p \<in> set themeNames" by (metis image_eqI list.set_map)
qed

lemma sortedThemes_props:
  assumes "map fst tc = themeNames"
  shows "length (sortedThemes tc) \<le> 3"
    and "\<forall>t \<in> set (sortedThemes tc). t \<in> set themeNames \<and> 0 < tallyOf tc t"
    and "sorted_wrt (\<lambda>a b. tallyOf tc b < tallyOf tc a
            \<or> (tallyOf tc a = tallyOf tc b \<and> priority a < priority b)) (sortedThemes tc)"
proof -
  define L where "L = sortWith (\<lambda>a b. 0 < int (snd b) - int (snd a)) tc"
  define K where "K = take 3 (filter (\<lambda>t. 0 < snd t) L)"
  have st: "sortedThemes tc = map fst K"
    by (simp add: sortedThemes_def K_def L_def)
  show "length (sortedThemes tc) \<le> 3" by (simp add: st K_def)
  have K_sub: "set K \<subseteq> {p \<in> set tc. 0 < snd p}"
    unfolding K_def L_def using set_take_subset [of 3 "filter (\<lambda>t. 0 < snd t) (sortWith (\<lambda>a b. 0 < int (snd b) - int (snd a)) tc)"]
    by (auto simp: set_sortWith)
  show "\<forall>t \<in> set (sortedThemes tc). t \<in> set themeNames \<and> 0 < tallyOf tc t"
    using K_sub tallyOf_entry [OF assms] by (fastforce simp: st)
  have "sorted_wrt (\<lambda>a b. priority a < priority b) (map fst tc)"
    using priority_increasing assms by simp
  then have "sorted_wrt (\<lambda>a b. priority (fst a) < priority (fst b)) tc"
    by (simp only: sorted_wrt_map)
  then have "sorted_wrt (\<lambda>a b. snd b < snd a \<or> (snd a = snd b \<and> priority (fst a) < priority (fst b))) L"
    unfolding L_def by (rule sortWith_lex [where g = "\<lambda>p. priority (fst p)"])
  then have "sorted_wrt (\<lambda>a b. snd b < snd a \<or> (snd a = snd b \<and> priority (fst a) < priority (fst b))) K"
    unfolding K_def by (intro sorted_wrt_take sorted_wrt_filter)
  then have "sorted_wrt (\<lambda>a b. tallyOf tc (fst b) < tallyOf tc (fst a)
      \<or> (tallyOf tc (fst a) = tallyOf tc (fst b) \<and> priority (fst a) < priority (fst b))) K"
  proof (rule sorted_wrt_mono_rel [rotated])
    fix x y
    assume "x \<in> set K" "y \<in> set K"
      and "snd y < snd x \<or> (snd x = snd y \<and> priority (fst x) < priority (fst y))"
    moreover from \<open>x \<in> set K\<close> \<open>y \<in> set K\<close> K_sub have "x \<in> set tc" "y \<in> set tc" by auto
    ultimately show "tallyOf tc (fst y) < tallyOf tc (fst x)
      \<or> (tallyOf tc (fst x) = tallyOf tc (fst y) \<and> priority (fst x) < priority (fst y))"
      by (simp add: tallyOf_entry [OF assms])
  qed
  then show "sorted_wrt (\<lambda>a b. tallyOf tc b < tallyOf tc a
            \<or> (tallyOf tc a = tallyOf tc b \<and> priority a < priority b)) (sortedThemes tc)"
    by (simp add: st sorted_wrt_map)
qed

text \<open>
  Claim C7. For every investor statistic that \<^verbatim>\<open>processData\<close> produces, taken with
  the tallies accumulated for that investor: \<^verbatim>\<open>topThemes\<close> has at most three
  entries; each is one of the six theme names and has a tally above zero; and the
  list is ordered by tally, larger first, with equal tallies in the fixed order
  AI, Climate, Fintech, Healthcare, SaaS, Consumer.
\<close>

theorem topThemes_sorted_top3:
  "\<forall>s \<in> set (investors (processData dateOf currentYear rawData)).
     \<exists>acc. (name s, acc) \<in> set (investorMapOf (scoredOf dateOf rawData))
       \<and> length (topThemes s) \<le> 3
       \<and> (\<forall>t \<in> set (topThemes s). t \<in> set themeNames \<and> 0 < tallyOf (acc_themeCounts acc) t)
       \<and> sorted_wrt (\<lambda>a b. tallyOf (acc_themeCounts acc) b < tallyOf (acc_themeCounts acc) a
            \<or> (tallyOf (acc_themeCounts acc) a = tallyOf (acc_themeCounts acc) b
                \<and> priority a < priority b)) (topThemes s)"
proof
  fix s
  assume "s \<in> set (investors (processData dateOf currentYear rawData))"
  then have "s \<in> set (investorsOf (scoredOf dateOf rawData))"
    by (simp add: investors_processData)
  then obtain nm d where nd: "(nm, d) \<in> set (investorMapOf (scoredOf dateOf rawData))"
    and s: "s = mkInvestor (nm, d)"
    by (rule investors_from_map)
  from goodAcc_investorMapOf nd have "goodAcc d" by fastforce
  then have keys: "map fst (acc_themeCounts d) = themeNames"
    by (simp add: goodAcc_def)
  have "name s = nm" "topThemes s = sortedThemes (acc_themeCounts d)"
    by (simp_all add: s mkInvestor_def)
  with nd sortedThemes_props [OF keys]
  show "\<exists>acc. (name s, acc) \<in> set (investorMapOf (scoredOf dateOf rawData))
       \<and> length (topThemes s) \<le> 3
       \<and> (\<forall>t \<in> set (topThemes s). t \<in> set themeNames \<and> 0 < tallyOf (acc_themeCounts acc) t)
       \<and> sorted_wrt (\<lambda>a b. tallyOf (acc_themeCounts acc) b < tallyOf (acc_themeCounts acc) a
            \<or> (tallyOf (acc_themeCounts acc) a = tallyOf (acc_themeCounts acc) b
                \<and> priority a < priority b)) (topThemes s)"
    by auto
qed


text \<open>Three companies of one investor with the tallies Climate 2, AI 1, SaaS 1: the
  tie between AI and SaaS is decided by the fixed order.\<close>

lemma topThemes_example:
  "map (\<lambda>s. (name s, topThemes s))
     (investors (processData (\<lambda>s. None) 2025
        [[''Investors'' \<mapsto> ''Sequoia'', ''Description'' \<mapsto> ''solar api''],
         [''Investors'' \<mapsto> ''Sequoia'', ''Description'' \<mapsto> ''ai''],
         [''Investors'' \<mapsto> ''Sequoia'', ''Description'' \<mapsto> ''solar'']]))
   = [(''Sequoia'', [''Climate'', ''AI'', ''SaaS''])]"
  by (simp add: investors_processData scoredOf_def scoreCompany_sel toTemp_raw sortWith_def
      inv_eval theme_eval orElse_def dq_def comma_def num_eval)

theorem topThemes_sorted_top3_witness:
  "map (\<lambda>s. (name s, topThemes s))
     (investors (processData (\<lambda>s. None) 2025
        [[''Investors'' \<mapsto> ''Sequoia'', ''Description'' \<mapsto> ''solar api''],
         [''Investors'' \<mapsto> ''Sequoia'', ''Description'' \<mapsto> ''ai''],
         [''Investors'' \<mapsto> ''Sequoia'', ''Description'' \<mapsto> ''solar'']]))
   = [(''Sequoia'', [''Climate'', ''AI'', ''SaaS''])]
   \<and> list_all (\<lambda>s. \<exists>acc. (name s, acc) \<in> set (investorMapOf (scoredOf (\<lambda>s. None)
        [[''Investors'' \<mapsto> ''Sequoia'', ''Description'' \<mapsto> ''solar api''],
         [''Investors'' \<mapsto> ''Sequoia'', ''Description'' \<mapsto> ''ai''],
         [''Investors'' \<mapsto> ''Sequoia'', ''Description'' \<mapsto> ''solar'']]))
       \<and> length (topThemes s) \<le> 3
       \<and> (\<forall>t \<in> set (topThemes s). t \<in> set themeNames \<and> 0 < tallyOf (acc_themeCounts acc) t)
       \<and> sorted_wrt (\<lambda>a b. tallyOf (acc_themeCounts acc) b < tallyOf (acc_themeCounts acc) a
            \<or> (tallyOf (acc_themeCounts acc) a = tallyOf (acc_themeCounts acc) b
                \<and> priority a < priority b)) (topThemes s))
     (investors (processData (\<lambda>s. None) 2025
        [[''Investors'' \<mapsto> ''Sequoia'', ''Description'' \<mapsto> ''solar api''],
         [''Investors'' \<mapsto> ''Sequoia'', ''Description'' \<mapsto> ''ai''],
         [''Investors'' \<mapsto> ''Sequoia'', ''Description'' \<mapsto> ''solar'']]))"
  using topThemes_example
    topThemes_sorted_top3 [of "\<lambda>s. None" 2025
        "[[''Investors'' \<mapsto> ''Sequoia'', ''Description'' \<mapsto> ''solar api''],
         [''Investors'' \<mapsto> ''Sequoia'', ''Description'' \<mapsto> ''ai''],
         [''Investors'' \<mapsto> ''Sequoia'', ''Description'' \<mapsto> ''solar'']]"]
  unfolding list_all_iff by blast

section \<open>Numbers and their text\<close>


lemma digit_cases: "n < 10 \<Longrightarrow> n \<in> {0, 1, 2, 3, 4, 5, 6, 7, 8, 9 :: nat}"
  by auto

lemma digitChar_props:
  assumes "n < 10"
  shows "isDigit (digitChar n)" and "digitOf (digitChar n) = n"
  using digit_cases [OF assms]
  by (auto simp: digitChar_def isDigit_def digitOf_def)

lemma showNat_digits: "\<forall>c \<in> set (showNat n). isDigit c"
proof (induction n rule: showNat.induct)
  case (1 n)
  show ?case
  proof (cases "n < 10")
    case True
    then show ?thesis by (simp add: showNat.simps [of n] digitChar_props)
  next
    case False
    then have "\<forall>c \<in> set (showNat (n div 10)). isDigit c" by (rule 1)
    moreover have "isDigit (digitChar (n mod 10))" by (simp add: digitChar_props)
    ultimately show ?thesis using False by (simp add: showNat.simps [of n])
  qed
qed

lemma showNat_nonempty: "showNat n \<noteq> []"
  by (simp add: showNat.simps [of n])

lemma valueIn_snoc: "valueIn r (xs @ [c]) = r * valueIn r xs + digitOf c"
  by (simp add: valueIn_def)

lemma valueIn_append: "valueIn r (xs @ ys) = valueIn r xs * r ^ length ys + valueIn r ys"
proof (induction ys rule: rev_induct)
  case Nil
  then show ?case by (simp add: valueIn_def)
next
  case (snoc y ys)
  have "valueIn r (xs @ ys @ [y]) = r * valueIn r (xs @ ys) + digitOf y"
    using valueIn_snoc [of r "xs @ ys" y] by simp
  also have "\<dots> = r * (valueIn r xs * r ^ length ys + valueIn r ys) + digitOf y"
    by (simp add: snoc)
  also have "\<dots> = valueIn r xs * r ^ length (ys @ [y]) + valueIn r (ys @ [y])"
    by (simp add: valueIn_snoc algebra_simps)
  finally show ?case by simp
qed

lemma valueIn_showNat: "valueIn 10 (showNat n) = n"
proof (induction n rule: showNat.induct)
  case (1 n)
  show ?case
  proof (cases "n < 10")
    case True
    then show ?thesis
      by (simp add: showNat.simps [of n] valueIn_def digitChar_props)
  next
    case False
    then have "valueIn 10 (showNat (n div 10)) = n div 10" by (rule 1)
    then show ?thesis using False
      by (simp add: showNat.simps [of n] valueIn_snoc digitChar_props)
  qed
qed

lemma valueIn_zeros: "valueIn 10 (replicate j (CHR ''0'') @ xs) = valueIn 10 xs"
proof -
  have z: "digitOf (CHR ''0'') = 0"
    by (simp add: digitOf_def isDigit_def)
  have "valueIn 10 (replicate j (CHR ''0'')) = 0"
  proof (induction j)
    case 0
    then show ?case by (simp add: valueIn_def)
  next
    case (Suc j)
    have "replicate (Suc j) (CHR ''0'') = replicate j (CHR ''0'') @ [CHR ''0'']"
      by (simp add: replicate_append_same)
    then show ?case using Suc by (simp only: valueIn_snoc z)
  qed
  then show ?thesis by (simp add: valueIn_append)
qed


lemma digit_not_space: "isDigit c \<Longrightarrow> \<not> isSpace c"
  by (auto simp: isDigit_def isSpace_def)

lemma digit_not_sign: "isDigit c \<Longrightarrow> \<not> isSign c"
  by (auto simp: isDigit_def isSign_def)

lemma parseFloat_shape:
  assumes "dropWhile isSpace s = s" "s \<noteq> []" "\<not> isSign (hd s)"
    and "takeWhile isDigit s = a" "a \<noteq> []" "dropWhile isDigit s = CHR ''.'' # b"
    and "takeWhile isDigit b = b" "dropWhile isDigit b = []"
  shows "parseFloat s = Num (real (valueIn 10 a) + real (valueIn 10 b) / 10 ^ length b)"
proof -
  have "hd s \<noteq> CHR ''-''" using assms(3) by (auto simp: isSign_def)
  then show ?thesis
    unfolding parseFloat_def Let_def assms(1)
    by (simp only: assms if_False if_True simp_thms list.sel list.simps mult_1)
qed

lemma parseFloat_decimal:
  assumes "\<forall>c \<in> set a. isDigit c" "a \<noteq> []" "\<forall>c \<in> set b. isDigit c"
  shows "parseFloat (a @ CHR ''.'' # b) = Num (real (valueIn 10 a) + real (valueIn 10 b) / 10 ^ length b)"
proof (rule parseFloat_shape)
  obtain x xs where a: "a = x # xs" using assms(2) by (cases a) auto
  have x: "isDigit x" using assms(1) a by simp
  have nd: "\<not> isDigit (CHR ''.'')" by (simp add: isDigit_def)
  show "dropWhile isSpace (a @ CHR ''.'' # b) = a @ CHR ''.'' # b"
    using digit_not_space [OF x] by (simp add: a)
  show "a @ CHR ''.'' # b \<noteq> []" by simp
  show "\<not> isSign (hd (a @ CHR ''.'' # b))"
    using digit_not_sign [OF x] by (simp add: a)
  show "takeWhile isDigit (a @ CHR ''.'' # b) = a"
    using assms(1) nd by (simp add: takeWhile_append)
  show "dropWhile isDigit (a @ CHR ''.'' # b) = CHR ''.'' # b"
    using assms(1) nd by (simp add: dropWhile_append)
  show "takeWhile isDigit b = b" using assms(3) by simp
  show "dropWhile isDigit b = []" using assms(3) by simp
  show "a \<noteq> []" by (rule assms(2))
qed


lemma toFixed1_shape:
  assumes "0 \<le> r"
  shows "\<exists>a b. toFixed 1 (Num r) = a @ CHR ''.'' # b \<and> (\<forall>c \<in> set a. isDigit c) \<and> a \<noteq> []
    \<and> (\<forall>c \<in> set b. isDigit c) \<and> length b = 1
    \<and> valueIn 10 a * 10 + valueIn 10 b = nat \<lfloor>r * 10 + 1 / 2\<rfloor>"
proof -
  define n where "n = nat \<lfloor>r * 10 + 1 / 2\<rfloor>"
  define m0 where "m0 = showNat n"
  define m where "m = (if length m0 \<le> 1 then replicate (2 - length m0) (CHR ''0'') @ m0 else m0)"
  define a where "a = take (length m - 1) m"
  define b where "b = drop (length m - 1) m"
  have z: "isDigit (CHR ''0'')" by (simp add: isDigit_def)
  have dm: "\<forall>c \<in> set m. isDigit c"
    using showNat_digits [of n] z by (auto simp: m_def m0_def)
  have vm: "valueIn 10 m = n"
    by (simp add: m_def m0_def valueIn_zeros valueIn_showNat)
  have lm: "2 \<le> length m"
    using showNat_nonempty [of n] by (auto simp: m_def m0_def)
  have ab: "a @ b = m" by (simp add: a_def b_def)
  have lb: "length b = 1" using lm by (simp add: b_def)
  have la: "a \<noteq> []" using lm by (auto simp: a_def)
  have "toFixed 1 (Num r) = a @ CHR ''.'' # b"
    using assms by (simp add: toFixed_def Let_def n_def m0_def m_def a_def b_def)
  moreover have "\<forall>c \<in> set a. isDigit c" "\<forall>c \<in> set b. isDigit c"
    using dm ab by auto
  moreover have "valueIn 10 a * 10 + valueIn 10 b = n"
    using valueIn_append [of 10 a b] by (simp add: ab vm lb)
  ultimately show ?thesis using la lb unfolding n_def by blast
qed

lemma percentOf_value:
  assumes "0 < n"
  shows "percentOf k n = Num (real (nat \<lfloor>real k / real n * 100 * 10 + 1 / 2\<rfloor>) / 10)"
proof -
  define r where "r = real k / real n * 100"
  have r0: "0 \<le> r" by (simp add: r_def)
  obtain a b where t: "toFixed 1 (Num r) = a @ CHR ''.'' # b"
    and d: "\<forall>c \<in> set a. isDigit c" "a \<noteq> []" "\<forall>c \<in> set b. isDigit c"
    and lb: "length b = 1"
    and v: "valueIn 10 a * 10 + valueIn 10 b = nat \<lfloor>r * 10 + 1 / 2\<rfloor>"
    using toFixed1_shape [OF r0] by blast
  have "percentOf k n = parseFloat (toFixed 1 (Num r))"
    using assms by (simp add: percentOf_def r_def)
  also have "\<dots> = Num (real (valueIn 10 a) + real (valueIn 10 b) / 10 ^ length b)"
    unfolding t by (rule parseFloat_decimal [OF d])
  also have "real (valueIn 10 a) + real (valueIn 10 b) / 10 ^ length b
      = real (valueIn 10 a * 10 + valueIn 10 b) / 10"
    by (simp add: lb)
  finally show ?thesis by (simp add: v r_def)
qed

lemma percentOf_rounded:
  assumes "0 < n"
  shows "roundedPercent (percentOf k n) k n"
proof -
  define y where "y = real k / real n * 100 * 10"
  define N where "N = \<lfloor>y + 1 / 2\<rfloor>"
  have y0: "0 \<le> y" by (simp add: y_def)
  then have N0: "0 \<le> N" by (simp add: N_def)
  have up: "real_of_int N \<le> y + 1 / 2" unfolding N_def by (rule of_int_floor_le)
  have lo: "y + 1 / 2 - 1 < real_of_int N" unfolding N_def by (rule real_of_int_floor_gt_diff_one)
  have p: "percentOf k n = Num (real_of_int N / 10)"
    using N0 by (simp add: percentOf_value [OF assms] N_def y_def)
  have "of_int \<lfloor>real_of_int N / 10 * 10\<rfloor> = real_of_int N / 10 * 10" by simp
  moreover have "\<bar>real_of_int N / 10 - 100 * real k / real n\<bar> \<le> 1 / 20"
  proof -
    have e: "100 * real k / real n = y / 10" by (simp add: y_def)
    show ?thesis unfolding e using up lo by linarith
  qed
  ultimately show ?thesis by (simp add: roundedPercent_def p)
qed

section \<open>Properties of the trend aggregator\<close>

lemma countsFor_other:
  assumes "foundedYear dateOf (raw c) \<noteq> y"
  shows "countsFor dateOf y (cs @ [c]) = countsFor dateOf y cs"
  using assms by (simp add: countsFor_def)

lemma countsFor_same:
  assumes "foundedYear dateOf (raw c) = y"
  shows "countsFor dateOf y (cs @ [c]) = bumpTrend (themes c) (countsFor dateOf y cs)"
  using assms by (simp add: countsFor_def bumpTrend_def)

lemma countsFor_absent:
  assumes "\<forall>c \<in> set cs. foundedYear dateOf (raw c) \<noteq> y"
  shows "countsFor dateOf y cs = zeroTrend"
proof -
  have "filter (\<lambda>c. foundedYear dateOf (raw c) = y \<and> P c) cs = []" for P
    using assms by (simp add: filter_empty_conv)
  moreover have "filter (\<lambda>c. foundedYear dateOf (raw c) = y) cs = []"
    using assms by (simp add: filter_empty_conv)
  ultimately show ?thesis by (simp add: countsFor_def zeroTrend_def)
qed

lemma trendInv_step:
  assumes "trendInv dateOf now cs m"
  shows "trendInv dateOf now (cs @ [c]) (trendStep dateOf now m c)"
proof -
  define y where "y = foundedYear dateOf (raw c)"
  from assms have d: "distinct (map fst m)"
    and k: "set (map fst m) = {y. \<exists>c \<in> set cs. foundedYear dateOf (raw c) = y \<and> 1990 < y \<and> y \<le> now}"
    and v: "\<forall>p \<in> set m. snd p = countsFor dateOf (fst p) cs"
    by (simp_all add: trendInv_def)
  show ?thesis
  proof (cases "1990 < y \<and> y \<le> now")
    case False
    then have st: "trendStep dateOf now m c = m"
      unfolding trendStep_def y_def [symmetric] Let_def by (simp only: if_False)
    have "\<forall>p \<in> set m. fst p \<noteq> y"
    proof
      fix p assume "p \<in> set m"
      then have "fst p \<in> set (map fst m)" by simp
      then have "1990 < fst p \<and> fst p \<le> now" unfolding k by blast
      with False show "fst p \<noteq> y" by blast
    qed
    then have "\<forall>p \<in> set m. snd p = countsFor dateOf (fst p) (cs @ [c])"
    proof (intro ballI)
      fix p assume a: "\<forall>p \<in> set m. fst p \<noteq> y" and p: "p \<in> set m"
      from a p have "foundedYear dateOf (raw c) \<noteq> fst p" by (auto simp: y_def)
      then have "countsFor dateOf (fst p) (cs @ [c]) = countsFor dateOf (fst p) cs"
        by (rule countsFor_other)
      with v p show "snd p = countsFor dateOf (fst p) (cs @ [c])" by simp
    qed
    moreover have "set (map fst m) = {y. \<exists>c \<in> set (cs @ [c]). foundedYear dateOf (raw c) = y \<and> 1990 < y \<and> y \<le> now}"
      using k False by (auto simp: y_def)
    ultimately show ?thesis using d by (simp add: trendInv_def st)
  next
    case True
    define m1 where "m1 = (if y \<in> fst ` set m then m else m @ [(y, zeroTrend)])"
    have st: "trendStep dateOf now m c =
        map (\<lambda>(k, e). if k = y then (k, bumpTrend (themes c) e) else (k, e)) m1"
      using True by (simp add: trendStep_def y_def [symmetric] m1_def Let_def)
    have keys: "map fst (map (\<lambda>(k, e). if k = y then (k, bumpTrend (themes c) e) else (k, e)) m1)
        = map fst m1"
      by (induction m1) auto
    have d1: "distinct (map fst m1)" using d by (auto simp: m1_def)
    have k1: "set (map fst m1) = insert y (set (map fst m))" by (auto simp: m1_def)
    have v1: "\<forall>p \<in> set m1. snd p = countsFor dateOf (fst p) cs"
    proof (cases "y \<in> fst ` set m")
      case True
      then show ?thesis using v by (simp add: m1_def)
    next
      case False
      then have "\<forall>c \<in> set cs. foundedYear dateOf (raw c) \<noteq> y"
        using k \<open>1990 < y \<and> y \<le> now\<close> by auto
      then have "countsFor dateOf y cs = zeroTrend" by (rule countsFor_absent)
      then show ?thesis using v False by (simp add: m1_def)
    qed
    have "\<forall>p \<in> set (map (\<lambda>(k, e). if k = y then (k, bumpTrend (themes c) e) else (k, e)) m1).
        snd p = countsFor dateOf (fst p) (cs @ [c])"
    proof
      fix p
      assume "p \<in> set (map (\<lambda>(k, e). if k = y then (k, bumpTrend (themes c) e) else (k, e)) m1)"
      then obtain k e where ke: "(k, e) \<in> set m1"
        and p: "p = (if k = y then (k, bumpTrend (themes c) e) else (k, e))"
        by auto
      from v1 ke have e: "e = countsFor dateOf k cs" by auto
      show "snd p = countsFor dateOf (fst p) (cs @ [c])"
      proof (cases "k = y")
        case True
        then show ?thesis
          using countsFor_same [of dateOf c y cs] by (simp add: p e y_def)
      next
        case False
        then have "foundedYear dateOf (raw c) \<noteq> k" by (auto simp: y_def)
        then have "countsFor dateOf k (cs @ [c]) = countsFor dateOf k cs"
          by (rule countsFor_other)
        with False show ?thesis by (simp add: p e)
      qed
    qed
    moreover have "insert y (set (map fst m)) =
        {y. \<exists>c \<in> set (cs @ [c]). foundedYear dateOf (raw c) = y \<and> 1990 < y \<and> y \<le> now}"
      using k True by (auto simp: y_def)
    ultimately show ?thesis
      unfolding trendInv_def st keys using d1 k1 by simp
  qed
qed

lemma trendInv_foldl: "trendInv dateOf now cs (foldl (trendStep dateOf now) [] cs)"
proof (induction cs rule: rev_induct)
  case Nil
  then show ?case by (simp add: trendInv_def)
next
  case (snoc c cs)
  then show ?case by (simp add: trendInv_step)
qed

lemma sorted_insertWith:
  fixes f :: "'a \<Rightarrow> int"
  assumes "\<And>a b. after a b \<longleftrightarrow> f b < f a" "sorted (map f xs)"
  shows "sorted (map f (insertWith after x xs))"
  using assms(2) by (induction xs) (auto simp: set_insertWith assms(1))

lemma sorted_sortWith:
  fixes f :: "'a \<Rightarrow> int"
  assumes "\<And>a b. after a b \<longleftrightarrow> f b < f a"
  shows "sorted (map f (sortWith after xs))"
proof (induction xs)
  case Nil
  then show ?case by (simp add: sortWith_def)
next
  case (Cons x xs)
  then have "sorted (map f (insertWith after x (sortWith after xs)))"
    by (rule sorted_insertWith [OF assms])
  then show ?case by (simp add: sortWith_def)
qed

lemma distinct_insertWith:
  "distinct (map f (insertWith after x xs)) \<longleftrightarrow> f x \<notin> f ` set xs \<and> distinct (map f xs)"
  by (induction xs) (auto simp: set_insertWith)

lemma distinct_sortWith: "distinct (map f (sortWith after xs)) \<longleftrightarrow> distinct (map f xs)"
  by (induction xs) (simp_all add: sortWith_def distinct_insertWith set_sortWith [unfolded sortWith_def])

lemma scoredOf_raw_themes:
  "map (\<lambda>c. (raw c, themes c)) (scoredOf d rawData)
     = map (\<lambda>r. (r, detectThemes (companyText r))) rawData"
  by (rule nth_equalityI)
     (simp_all add: length_scoredOf scoredOf_nth scoreCompany_sel toTemp_raw)

lemma scoredOf_count:
  "length (filter (\<lambda>c. Q (raw c) (themes c)) (scoredOf d rawData))
     = length (filter (\<lambda>r. Q r (detectThemes (companyText r))) rawData)"
proof -
  have "length (filter (\<lambda>c. Q (raw c) (themes c)) (scoredOf d rawData))
      = length (filter (\<lambda>p. Q (fst p) (snd p)) (map (\<lambda>c. (raw c, themes c)) (scoredOf d rawData)))"
    by (simp add: filter_map comp_def)
  also have "\<dots> = length (filter (\<lambda>r. Q r (detectThemes (companyText r))) rawData)"
    unfolding scoredOf_raw_themes by (simp add: filter_map comp_def)
  finally show ?thesis .
qed

lemma scoredOf_raw_set: "raw ` set (scoredOf d rawData) = set rawData"
proof -
  have "map raw (scoredOf d rawData) = rawData"
    by (rule nth_equalityI)
       (simp_all add: length_scoredOf scoredOf_nth scoreCompany_sel toTemp_raw)
  then have "set (map raw (scoredOf d rawData)) = set rawData" by simp
  then show ?thesis by simp
qed

lemma countsFor_scoredOf:
  "countsFor d y (scoredOf d rawData) =
     \<lparr> n_AI = withTheme ai (bucketOf d y rawData),
       n_Climate = withTheme climate (bucketOf d y rawData),
       n_Fintech = withTheme fintech (bucketOf d y rawData),
       n_Healthcare = withTheme healthcare (bucketOf d y rawData),
       n_SaaS = withTheme saas (bucketOf d y rawData),
       n_Consumer = withTheme consumer (bucketOf d y rawData),
       n_count = length (bucketOf d y rawData) \<rparr>"
  unfolding countsFor_def withTheme_def bucketOf_def filter_filter
  by (simp add: scoredOf_count [where Q = "\<lambda>r t. foundedYear d r = y \<and> ai t"]
      scoredOf_count [where Q = "\<lambda>r t. foundedYear d r = y \<and> climate t"]
      scoredOf_count [where Q = "\<lambda>r t. foundedYear d r = y \<and> fintech t"]
      scoredOf_count [where Q = "\<lambda>r t. foundedYear d r = y \<and> healthcare t"]
      scoredOf_count [where Q = "\<lambda>r t. foundedYear d r = y \<and> saas t"]
      scoredOf_count [where Q = "\<lambda>r t. foundedYear d r = y \<and> consumer t"]
      scoredOf_count [where Q = "\<lambda>r t. foundedYear d r = y"])

lemma trends_processData:
  "trends (processData d now rawData) = trendsOf d now (scoredOf d rawData)"
  by (simp add: processData_def Let_def)

lemma year_mkTrend: "year (mkTrend p) = fst p"
  by (cases p) (simp add: mkTrend_def)

lemma trend_years:
  "map year (trendsOf d now (scoredOf d rawData))
     = sorted_list_of_set {y. \<exists>r \<in> set rawData. foundedYear d r = y \<and> 1990 < y \<and> y \<le> now}"
proof -
  define m where "m = foldl (trendStep d now) [] (scoredOf d rawData)"
  define ts where "ts = trendsOf d now (scoredOf d rawData)"
  have inv: "trendInv d now (scoredOf d rawData) m"
    unfolding m_def by (rule trendInv_foldl)
  have ts: "ts = sortWith (\<lambda>a b. 0 < year a - year b) (map mkTrend m)"
    by (simp add: ts_def trendsOf_def m_def)
  have my: "map year (map mkTrend m) = map fst m"
    by (simp add: year_mkTrend comp_def)
  have s: "sorted (map year ts)"
    unfolding ts by (rule sorted_sortWith) auto
  have "distinct (map fst m)" using inv by (simp add: trendInv_def)
  then have "distinct (map year (map mkTrend m))" by (simp only: my)
  then have d: "distinct (map year ts)"
    by (simp only: ts distinct_sortWith)
  have "set (map year ts) = set (map year (map mkTrend m))"
    by (simp only: ts set_map set_sortWith)
  also have "\<dots> = set (map fst m)" by (simp only: my)
  also have "\<dots> = {y. \<exists>c \<in> set (scoredOf d rawData). foundedYear d (raw c) = y \<and> 1990 < y \<and> y \<le> now}"
    using inv by (simp add: trendInv_def)
  also have "\<dots> = {y. \<exists>r \<in> raw ` set (scoredOf d rawData). foundedYear d r = y \<and> 1990 < y \<and> y \<le> now}"
    by auto
  also have "\<dots> = {y. \<exists>r \<in> set rawData. foundedYear d r = y \<and> 1990 < y \<and> y \<le> now}"
    by (simp only: scoredOf_raw_set)
  finally have "set (map year ts) = {y. \<exists>r \<in> set rawData. foundedYear d r = y \<and> 1990 < y \<and> y \<le> now}" .
  then have "sorted_list_of_set {y. \<exists>r \<in> set rawData. foundedYear d r = y \<and> 1990 < y \<and> y \<le> now}
      = sorted_list_of_set (set (map year ts))" by simp
  also have "\<dots> = map year ts"
    using s d by (rule sorted_list_of_set.idem_if_sorted_distinct)
  finally show ?thesis by (simp add: ts_def)
qed

lemma trend_entry:
  assumes "t \<in> set (trendsOf d now (scoredOf d rawData))"
  shows "bucketOf d (year t) rawData \<noteq> []"
    and "t = mkTrend (year t, countsFor d (year t) (scoredOf d rawData))"
proof -
  define m where "m = foldl (trendStep d now) [] (scoredOf d rawData)"
  have inv: "trendInv d now (scoredOf d rawData) m"
    unfolding m_def by (rule trendInv_foldl)
  from assms have "t \<in> set (map mkTrend m)"
    by (simp add: trendsOf_def m_def set_sortWith)
  then obtain p where p: "p \<in> set m" "t = mkTrend p" by auto
  have y: "year t = fst p" by (simp add: p(2) year_mkTrend)
  from inv p(1) have sp: "snd p = countsFor d (fst p) (scoredOf d rawData)"
    by (simp add: trendInv_def)
  then have "p = (year t, countsFor d (year t) (scoredOf d rawData))"
    by (simp add: y prod_eq_iff)
  with p(2) show "t = mkTrend (year t, countsFor d (year t) (scoredOf d rawData))" by simp
  from p(1) have "fst p \<in> set (map fst m)" by simp
  with inv have "\<exists>c \<in> set (scoredOf d rawData). foundedYear d (raw c) = fst p"
    by (auto simp: trendInv_def)
  then obtain c where c: "c \<in> set (scoredOf d rawData)" "foundedYear d (raw c) = year t"
    by (auto simp: y)
  then have "raw c \<in> set rawData" using scoredOf_raw_set [of d rawData] by blast
  with c(2) show "bucketOf d (year t) rawData \<noteq> []"
    by (auto simp: bucketOf_def filter_empty_conv)
qed

text \<open>
  Claim C6. The trend output has exactly one entry for every founding year in the
  range (1990, currentYear] that occurs in the batch, and no other; the entries are
  in ascending order of year; each theme percentage of an entry is 100 times the
  number of companies of that year carrying the theme, divided by the number of
  companies of that year, rounded to one decimal; and every record, dated or not,
  is still among the scored companies. The founding year of a record is 0 when its
  date is absent or invalid, so such a record is in no bucket.
\<close>

theorem trends_by_year:
  "map year (trends (processData dateOf currentYear rawData))
     = sorted_list_of_set
         {y. \<exists>r \<in> set rawData. foundedYear dateOf r = y \<and> 1990 < y \<and> y \<le> currentYear}
   \<and> (\<forall>t \<in> set (trends (processData dateOf currentYear rawData)).
         bucketOf dateOf (year t) rawData \<noteq> []
         \<and> roundedPercent (AI t) (withTheme ai (bucketOf dateOf (year t) rawData))
               (length (bucketOf dateOf (year t) rawData))
         \<and> roundedPercent (Climate t) (withTheme climate (bucketOf dateOf (year t) rawData))
               (length (bucketOf dateOf (year t) rawData))
         \<and> roundedPercent (Fintech t) (withTheme fintech (bucketOf dateOf (year t) rawData))
               (length (bucketOf dateOf (year t) rawData))
         \<and> roundedPercent (Healthcare t) (withTheme healthcare (bucketOf dateOf (year t) rawData))
               (length (bucketOf dateOf (year t) rawData))
         \<and> roundedPercent (SaaS t) (withTheme saas (bucketOf dateOf (year t) rawData))
               (length (bucketOf dateOf (year t) rawData))
         \<and> roundedPercent (Consumer t) (withTheme consumer (bucketOf dateOf (year t) rawData))
               (length (bucketOf dateOf (year t) rawData)))
   \<and> length (companies (processData dateOf currentYear rawData)) = length rawData"
proof (intro conjI ballI)
  show "map year (trends (processData dateOf currentYear rawData))
     = sorted_list_of_set
         {y. \<exists>r \<in> set rawData. foundedYear dateOf r = y \<and> 1990 < y \<and> y \<le> currentYear}"
    by (simp only: trends_processData trend_years)
  show "length (companies (processData dateOf currentYear rawData)) = length rawData"
    by (simp add: processData_def Let_def length_sortWith length_scoredOf)
next
  fix t
  assume "t \<in> set (trends (processData dateOf currentYear rawData))"
  then have t: "t \<in> set (trendsOf dateOf currentYear (scoredOf dateOf rawData))"
    by (simp only: trends_processData)
  define b where "b = bucketOf dateOf (year t) rawData"
  have ne: "b \<noteq> []" unfolding b_def by (rule trend_entry(1) [OF t])
  then have n0: "0 < length b" by simp
  have e: "t = mkTrend (year t, countsFor dateOf (year t) (scoredOf dateOf rawData))"
    by (rule trend_entry(2) [OF t])
  have v: "AI t = percentOf (withTheme ai b) (length b)"
    "Climate t = percentOf (withTheme climate b) (length b)"
    "Fintech t = percentOf (withTheme fintech b) (length b)"
    "Healthcare t = percentOf (withTheme healthcare b) (length b)"
    "SaaS t = percentOf (withTheme saas b) (length b)"
    "Consumer t = percentOf (withTheme consumer b) (length b)"
    by (subst e, simp add: mkTrend_def countsFor_scoredOf b_def)+
  show "bucketOf dateOf (year t) rawData \<noteq> []" using ne by (simp add: b_def)
  show "roundedPercent (AI t) (withTheme ai (bucketOf dateOf (year t) rawData))
      (length (bucketOf dateOf (year t) rawData))"
    unfolding b_def [symmetric] v by (rule percentOf_rounded [OF n0])
  show "roundedPercent (Climate t) (withTheme climate (bucketOf dateOf (year t) rawData))
      (length (bucketOf dateOf (year t) rawData))"
    unfolding b_def [symmetric] v by (rule percentOf_rounded [OF n0])
  show "roundedPercent (Fintech t) (withTheme fintech (bucketOf dateOf (year t) rawData))
      (length (bucketOf dateOf (year t) rawData))"
    unfolding b_def [symmetric] v by (rule percentOf_rounded [OF n0])
  show "roundedPercent (Healthcare t) (withTheme healthcare (bucketOf dateOf (year t) rawData))
      (length (bucketOf dateOf (year t) rawData))"
    unfolding b_def [symmetric] v by (rule percentOf_rounded [OF n0])
  show "roundedPercent (SaaS t) (withTheme saas (bucketOf dateOf (year t) rawData))
      (length (bucketOf dateOf (year t) rawData))"
    unfolding b_def [symmetric] v by (rule percentOf_rounded [OF n0])
  show "roundedPercent (Consumer t) (withTheme consumer (bucketOf dateOf (year t) rawData))
      (length (bucketOf dateOf (year t) rawData))"
    unfolding b_def [symmetric] v by (rule percentOf_rounded [OF n0])
qed

text \<open>The worked example: the counters per year, and the entries made from them.\<close>

lemma example_counts:
  "foldl (trendStep exampleDates 2025) [] (scoredOf exampleDates exampleBatch)
     = [(2001, \<lparr> n_AI = 1, n_Climate = 0, n_Fintech = 0, n_Healthcare = 0, n_SaaS = 0,
                 n_Consumer = 0, n_count = 3 \<rparr>),
        (1999, \<lparr> n_AI = 0, n_Climate = 0, n_Fintech = 0, n_Healthcare = 0, n_SaaS = 0,
                 n_Consumer = 0, n_count = 1 \<rparr>)]"
  by (simp add: exampleDates_def exampleBatch_def trendStep_def foundedYear_def bumpTrend_def
      zeroTrend_def scoredOf_def scoreCompany_sel toTemp_raw theme_eval orElse_def num_eval)

lemma example_percent:
  "percentOf (Suc 0) 3 = Num 33.3" "percentOf 0 3 = Num 0" "percentOf 0 (Suc 0) = Num 0"
  by (simp_all add: percentOf_def num_eval)

lemma trends_example:
  "map (\<lambda>t. (year t, AI t, SaaS t)) (trends (processData exampleDates 2025 exampleBatch))
     = [(1999, Num 0, Num 0), (2001, Num 33.3, Num 0)]"
  by (simp add: trends_processData trendsOf_def example_counts mkTrend_def example_percent
      sortWith_def)

theorem trends_by_year_witness:
  "map (\<lambda>t. (year t, AI t, SaaS t)) (trends (processData exampleDates 2025 exampleBatch))
     = [(1999, Num 0, Num 0), (2001, Num 33.3, Num 0)]
   \<and> list_all (\<lambda>t. bucketOf exampleDates (year t) exampleBatch \<noteq> []
         \<and> roundedPercent (AI t) (withTheme ai (bucketOf exampleDates (year t) exampleBatch))
               (length (bucketOf exampleDates (year t) exampleBatch))
         \<and> roundedPercent (Climate t) (withTheme climate (bucketOf exampleDates (year t) exampleBatch))
               (length (bucketOf exampleDates (year t) exampleBatch))
         \<and> roundedPercent (Fintech t) (withTheme fintech (bucketOf exampleDates (year t) exampleBatch))
               (length (bucketOf exampleDates (year t) exampleBatch))
         \<and> roundedPercent (Healthcare t) (withTheme healthcare (bucketOf exampleDates (year t) exampleBatch))
               (length (bucketOf exampleDates (year t) exampleBatch))
         \<and> roundedPercent (SaaS t) (withTheme saas (bucketOf exampleDates (year t) exampleBatch))
               (length (bucketOf exampleDates (year t) exampleBatch))
         \<and> roundedPercent (Consumer t) (withTheme consumer (bucketOf exampleDates (year t) exampleBatch))
               (length (bucketOf exampleDates (year t) exampleBatch)))
       (trends (processData exampleDates 2025 exampleBatch))
   \<and> length (companies (processData exampleDates 2025 exampleBatch)) = length exampleBatch"
  using trends_example trends_by_year [of exampleDates 2025 exampleBatch]
  unfolding list_all_iff by blast

section \<open>Exporting and parsing again\<close>

lemma splitFrom_no_sep: "c \<notin> set l \<Longrightarrow> splitFrom c piece l = [piece @ l]"
  by (induction l arbitrary: piece) auto

lemma splitFrom_sep:
  "c \<notin> set l \<Longrightarrow> splitFrom c piece (l @ c # rest) = (piece @ l) # splitFrom c [] rest"
  by (induction l arbitrary: piece) auto

lemma splitOn_joinWith:
  assumes "ls \<noteq> []" "\<forall>l \<in> set ls. c \<notin> set l"
  shows "splitOn c (joinWith [c] ls) = ls"
  using assms
proof (induction "[c]" ls rule: joinWith.induct)
  case 1
  then show ?case by simp
next
  case (2 x)
  then show ?case by (simp add: splitOn_def splitFrom_no_sep)
next
  case (3 x y ys)
  then have "splitOn c (joinWith [c] (y # ys)) = y # ys" by simp
  moreover have "c \<notin> set x" using "3.prems" by simp
  ultimately show ?case
    by (simp add: splitOn_def splitFrom_sep)
qed

lemma length_splitFrom:
  "length (splitFrom c piece s) = Suc (length (filter (\<lambda>x. x = c) s))"
  by (induction s arbitrary: piece) auto

lemma in_dropWhile: "x \<in> set l \<Longrightarrow> \<not> P x \<Longrightarrow> x \<in> set (dropWhile P l)"
  by (induction l) auto

lemma trim_nonblank:
  assumes "x \<in> set l" "\<not> isSpace x"
  shows "trim l \<noteq> []"
proof -
  have "x \<in> set (dropWhile isSpace l)" using assms by (rule in_dropWhile)
  then have "x \<in> set (rev (dropWhile isSpace l))" by simp
  then have m: "x \<in> set (dropWhile isSpace (rev (dropWhile isSpace l)))"
    using assms(2) by (rule in_dropWhile)
  show ?thesis
  proof
    assume "trim l = []"
    then have "dropWhile isSpace (rev (dropWhile isSpace l)) = []"
      by (simp only: trim_def rev_is_Nil_conv)
    with m show False by (simp only: list.set empty_iff)
  qed
qed

lemma length_scanLine:
  "length (scanLine s row q cur) = length row + Suc (fst (separators q s))"
  by (induction s arbitrary: row q cur) auto

lemma length_parseLine: "length (parseLine s) = Suc (fst (separators False s))"
  by (simp add: parseLine_def length_scanLine)

lemma separators_append:
  "separators q (a @ b) =
     (fst (separators q a) + fst (separators (snd (separators q a)) b),
      snd (separators (snd (separators q a)) b))"
  by (induction a arbitrary: q) auto

lemma separators_plain:
  assumes "comma \<notin> set s" "dq \<notin> set s"
  shows "separators q s = (0, q)"
  using assms by (induction s arbitrary: q) auto

lemma separators_no_comma: "comma \<notin> set s \<Longrightarrow> fst (separators q s) = 0"
  by (induction s arbitrary: q) auto

lemma separators_cut_doubled:
  "separators True (take n (doubleQuotes s))
     = (0, even (quoteCount (take n (doubleQuotes s))))"
proof (induction s arbitrary: n)
  case Nil
  then show ?case by (simp add: doubleQuotes_def quoteCount_def)
next
  case (Cons c s)
  have dc: "doubleQuotes (c # s) = (if c = dq then [dq, dq] else [c]) @ doubleQuotes s"
    by (simp add: doubleQuotes_def)
  show ?case
  proof (cases "c = dq")
    case False
    show ?thesis
    proof (cases n)
      case 0
      then show ?thesis by (simp add: quoteCount_def)
    next
      case (Suc k)
      with False Cons [of k] show ?thesis
        by (simp add: dc quoteCount_def)
    qed
  next
    case True
    have dd: "doubleQuotes (dq # s) = dq # dq # doubleQuotes s"
      by (simp add: doubleQuotes_def)
    show ?thesis
    proof (cases n)
      case 0
      then show ?thesis by (simp add: quoteCount_def)
    next
      case (Suc k)
      show ?thesis
      proof (cases k)
        case 0
        with Suc True show ?thesis by (simp add: dd quoteCount_def)
      next
        case (Suc j)
        with \<open>n = Suc k\<close> True Cons [of j] show ?thesis
          by (simp add: dd quoteCount_def)
      qed
    qed
  qed
qed

lemma even_quoteCount_doubled: "even (quoteCount (doubleQuotes s))"
  by (induction s) (auto simp: doubleQuotes_def quoteCount_def)

lemma separators_doubled: "separators True (doubleQuotes s) = (0, True)"
  using separators_cut_doubled [of "length (doubleQuotes s)" s]
  by (simp add: even_quoteCount_doubled)

lemma separators_quoted: "separators False (quoted s) = (0, False)"
  by (simp add: quoted_def separators_append separators_doubled)

lemma digit_plain: "isDigit c \<Longrightarrow> plainChar c"
  by (auto simp: isDigit_def plainChar_def comma_def dq_def nl_def isSpace_def)

lemma showNat_plain: "\<forall>c \<in> set (showNat n). plainChar c"
  using showNat_digits [of n] digit_plain by blast

lemma toFixed_plain: "\<forall>c \<in> set (toFixed f x). plainChar c"
proof (cases x)
  case NaN
  then show ?thesis
    by (simp add: toFixed_def plainChar_def comma_def dq_def nl_def isSpace_def)
next
  case (Num r)
  define n where "n = nat \<lfloor>\<bar>r\<bar> * 10 ^ f + 1 / 2\<rfloor>"
  define m where "m = (if length (showNat n) \<le> f
      then replicate (f + 1 - length (showNat n)) (CHR ''0'') @ showNat n else showNat n)"
  have z: "plainChar (CHR ''0'')" "plainChar (CHR ''.'')" "plainChar (CHR ''-'')"
    by (simp_all add: plainChar_def comma_def dq_def nl_def isSpace_def)
  have m: "\<forall>c \<in> set m. plainChar c"
    using showNat_plain [of n] z(1) by (auto simp: m_def)
  have t: "\<forall>c \<in> set (take k m). plainChar c" for k
    using m by (meson in_set_takeD)
  have d: "\<forall>c \<in> set (drop k m). plainChar c" for k
    using m by (meson in_set_dropD)
  have "toFixed f x = (if r < 0 then ''-'' else [])
      @ (if f = 0 then m else take (length m - f) m @ ''.'' @ drop (length m - f) m)"
    by (simp add: Num toFixed_def Let_def n_def m_def)
  then show ?thesis using m t d z by auto
qed

lemma set_doubleQuotes: "set (doubleQuotes s) = set s"
  by (induction s) (auto simp: doubleQuotes_def)

lemma nl_quoted: "nl \<notin> set s \<Longrightarrow> nl \<notin> set (quoted s)"
  by (simp add: quoted_def set_doubleQuotes nl_def dq_def)

lemma separators_field:
  assumes "separators False fld = (0, False)"
  shows "separators False (fld @ comma # rest)
     = (Suc (fst (separators False rest)), snd (separators False rest))"
  by (simp add: separators_append assms comma_def dq_def)

lemma separators_plainField:
  assumes "\<forall>c \<in> set s. plainChar c"
  shows "separators False s = (0, False)"
  by (rule separators_plain) (use assms in \<open>auto simp: plainChar_def\<close>)

lemma separators_description:
  assumes "even (quoteCount d)" "d = take n (doubleQuotes s)"
  shows "separators False ([dq] @ d @ [dq]) = (0, False)"
proof -
  have "separators True d = (0, True)"
    using separators_cut_doubled [of n s] assms by simp
  then show ?thesis by (simp add: separators_append)
qed

lemma exportRow_goodLine:
  assumes "exportable c"
  shows "\<exists>row. exportRow c idx = Inr row \<and> goodLine (joinWith '','' row)"
proof -
  from assms obtain orgName where nm: "raw c ''Organization Name'' = Some orgName"
    by (auto simp: exportable_def)
  then have on: "orElse (raw c ''Organization Name'') [] = orgName"
    by (simp add: orElse_def)
  define f0 where "f0 = showNat (idx + 1)"
  define f1 where "f1 = quoted orgName"
  define f2 where "f2 = toFixed 2 (comprehensive (scores c))"
  define f3 where "f3 = toFixed 2 (potential (scores c))"
  define f4 where "f4 = toFixed 2 (funding (scores c))"
  define f5 where "f5 = toFixed 2 (operations (scores c))"
  define f6 where "f6 = toFixed 2 (brandTrend (scores c))"
  define f7 where "f7 = quoted (orElse (raw c ''Headquarters Location'') [])"
  define f8 where "f8 = quoted (orElse (raw c ''Industries'') [])"
  define f9 where "f9 = [dq] @ exportedDescription c @ [dq]"
  define f10 where "f10 = orElse (raw c ''Organization Name URL'') []"
  define line where "line = f0 @ comma # f1 @ comma # f2 @ comma # f3 @ comma # f4 @ comma # f5
      @ comma # f6 @ comma # f7 @ comma # f8 @ comma # f9 @ comma # f10"
  have row: "exportRow c idx = Inr [f0, f1, f2, f3, f4, f5, f6, f7, f8, f9, f10]"
    by (simp add: exportRow_def nm f0_def f1_def f2_def f3_def f4_def f5_def f6_def f7_def
        f8_def f9_def f10_def exportedDescription_def)
  have jn: "joinWith '','' [f0, f1, f2, f3, f4, f5, f6, f7, f8, f9, f10] = line"
    by (simp add: line_def comma_def)
  have p0: "\<forall>x \<in> set f0. plainChar x" unfolding f0_def by (rule showNat_plain)
  have pf: "\<forall>x \<in> set f2. plainChar x" "\<forall>x \<in> set f3. plainChar x" "\<forall>x \<in> set f4. plainChar x"
    "\<forall>x \<in> set f5. plainChar x" "\<forall>x \<in> set f6. plainChar x"
    unfolding f2_def f3_def f4_def f5_def f6_def by (rule toFixed_plain)+
  have s0: "separators False f0 = (0, False)" by (rule separators_plainField [OF p0])
  have s1: "separators False f1 = (0, False)" unfolding f1_def by (rule separators_quoted)
  have s2: "separators False f2 = (0, False)" by (rule separators_plainField [OF pf(1)])
  have s3: "separators False f3 = (0, False)" by (rule separators_plainField [OF pf(2)])
  have s4: "separators False f4 = (0, False)" by (rule separators_plainField [OF pf(3)])
  have s5: "separators False f5 = (0, False)" by (rule separators_plainField [OF pf(4)])
  have s6: "separators False f6 = (0, False)" by (rule separators_plainField [OF pf(5)])
  have s7: "separators False f7 = (0, False)" unfolding f7_def by (rule separators_quoted)
  have s8: "separators False f8 = (0, False)" unfolding f8_def by (rule separators_quoted)
  have s9: "separators False f9 = (0, False)"
    unfolding f9_def
    by (rule separators_description [where n = 1000
          and s = "orElse (raw c ''Full Description'') (orElse (raw c ''Description'') [])"])
       (use assms in \<open>simp_all add: exportable_def exportedDescription_def\<close>)
  have s10: "fst (separators False f10) = 0"
    unfolding f10_def by (rule separators_no_comma) (use assms in \<open>simp add: exportable_def\<close>)
  have "fst (separators False line) = 10"
    unfolding line_def
    by (simp only: separators_field s0 s1 s2 s3 s4 s5 s6 s7 s8 s9 s10 fst_conv snd_conv)
  then have len: "length (parseLine line) = 11"
    by (simp add: length_parseLine)
  have np: "plainChar x \<Longrightarrow> x \<noteq> nl" for x by (simp add: plainChar_def)
  have n0: "nl \<notin> set f0" using p0 np by blast
  have nf: "nl \<notin> set f2" "nl \<notin> set f3" "nl \<notin> set f4" "nl \<notin> set f5" "nl \<notin> set f6"
    using pf np by blast+
  have n1: "nl \<notin> set f1" "nl \<notin> set f7" "nl \<notin> set f8"
    unfolding f1_def f7_def f8_def
    using assms by (simp_all add: exportable_def on nl_quoted)
  have n9: "nl \<notin> set f9" "nl \<notin> set f10"
    using assms by (simp_all add: f9_def f10_def exportable_def nl_def dq_def)
  have nc: "nl \<noteq> comma" by (simp add: nl_def comma_def)
  have nlf: "nl \<notin> set line"
    using n0 nf n1 n9 nc by (simp add: line_def)
  have "f0 \<noteq> []" unfolding f0_def by (rule showNat_nonempty)
  then obtain x where x: "x \<in> set f0" by (cases f0) auto
  then have "\<not> isSpace x" using p0 by (auto simp: plainChar_def)
  moreover have "x \<in> set line" using x by (simp add: line_def)
  ultimately have "trim line \<noteq> []" by (rule trim_nonblank [rotated])
  with len nlf have "goodLine line" by (simp add: goodLine_def)
  with row jn show ?thesis by simp
qed

lemma exportRows_goodLines:
  assumes "\<forall>c \<in> set cs. exportable c"
  shows "\<exists>rows. exportRows cs idx = Inr rows \<and> length rows = length cs
    \<and> (\<forall>r \<in> set rows. goodLine (joinWith '','' r))"
  using assms
proof (induction cs arbitrary: idx)
  case Nil
  then show ?case by simp
next
  case (Cons c cs)
  then obtain row where row: "exportRow c idx = Inr row" "goodLine (joinWith '','' row)"
    using exportRow_goodLine [of c idx] by auto
  from Cons obtain rows where rows: "exportRows cs (Suc idx) = Inr rows" "length rows = length cs"
    "\<forall>r \<in> set rows. goodLine (joinWith '','' r)"
    by (metis list.set_intros(2))
  have "exportRows (c # cs) idx = Inr (row # rows)"
    by (simp add: row(1) rows(1))
  with row(2) rows(2,3) show ?case by simp
qed

lemma header_line:
  "nl \<notin> set (joinWith '','' exportHeaders)"
  "trim (joinWith '','' exportHeaders) \<noteq> []"
  "length (splitOn comma (joinWith '','' exportHeaders)) = 11"
proof -
  show "nl \<notin> set (joinWith '','' exportHeaders)"
    by (simp add: exportHeaders_def nl_def)
  have "CHR ''R'' \<in> set (joinWith '','' exportHeaders)"
    by (simp add: exportHeaders_def)
  moreover have "\<not> isSpace (CHR ''R'')" by (simp add: isSpace_def)
  ultimately show "trim (joinWith '','' exportHeaders) \<noteq> []" by (rule trim_nonblank)
  show "length (splitOn comma (joinWith '','' exportHeaders)) = 11"
    by (simp add: splitOn_def length_splitFrom exportHeaders_def comma_def)
qed

text \<open>
  Where the round trip does succeed: for companies whose rows the parser reads back
  as one record of eleven fields each, the exporter produces a text, and parsing it
  with \<^verbatim>\<open>parseCSV\<close> yields as many records as companies were exported.
\<close>

lemma export_parse_roundtrip:
  assumes "\<forall>c \<in> set cs. exportable c"
  shows "\<exists>text. exportCompaniesToCSV cs = Inr text \<and> length (parseCSV text) = length cs"
proof -
  obtain rows where rows: "exportRows cs 0 = Inr rows" "length rows = length cs"
    and good: "\<forall>r \<in> set rows. goodLine (joinWith '','' r)"
    using exportRows_goodLines [OF assms, of 0] by blast
  define hdr where "hdr = joinWith '','' exportHeaders"
  define ls where "ls = map (joinWith '','') rows"
  define csv where "csv = joinWith [nl] (hdr # ls)"
  have ex: "exportCompaniesToCSV cs = Inr csv"
    by (simp add: exportCompaniesToCSV_def rows(1) csv_def hdr_def ls_def)
  have gl: "\<forall>l \<in> set ls. goodLine l" using good by (simp add: ls_def)
  have "\<forall>l \<in> set (hdr # ls). nl \<notin> set l"
    using gl header_line(1) by (simp add: hdr_def goodLine_def)
  then have "splitOn nl csv = hdr # ls"
    unfolding csv_def by (intro splitOn_joinWith) simp_all
  moreover have "\<forall>l \<in> set (hdr # ls). trim l \<noteq> []"
    using gl header_line(2) by (simp add: hdr_def goodLine_def)
  ultimately have cl: "csvLines csv = hdr # ls"
    by (simp add: csvLines_def)
  have hl: "length (csvHeaders (hdr # ls)) = 11"
    using header_line(3) by (simp add: csvHeaders_def hdr_def)
  have keep: "filter (\<lambda>row. length row = length (csvHeaders (hdr # ls))) (map parseLine ls)
      = map parseLine ls"
    using gl by (simp add: hl goodLine_def)
  have "length (parseCSV csv) = length ls"
    by (simp add: parseCSV_as_filter [of csv] cl keep)
  then show ?thesis using ex rows(2) by (simp add: ls_def)
qed

text \<open>One company whose website contains a comma: the exported row has twelve
  fields for the parser, which drops it.\<close>

lemma comma_url_export:
  "exportCompaniesToCSV (companies (processData (\<lambda>s. None) 2025
      [[''Organization Name'' \<mapsto> ''Acme'', ''Organization Name URL'' \<mapsto> ''http://a.b/x,y'']]))
   = Inr (''Rank,Organization Name,Comprehensive Score,Potential Score,Funding Score,''
          @ ''Operations Score,Brand Score,Headquarters Location,Industries,Description,Website''
          @ [nl] @ ''1,'' @ [dq] @ ''Acme'' @ [dq] @ '',22.75,21.00,30.00,40.00,0.00,''
          @ [dq, dq] @ '','' @ [dq, dq] @ '','' @ [dq, dq] @ '',http://a.b/x,y'')"
  by (simp add: score_eval theme_eval rec_eval export_eval)

lemmas parse_eval = parseCSV_def csvLines_def csvHeaders_def splitOn_def trim_def stripQuotes_def
  parseLine_def isSpace_def Let_def dq_def nl_def comma_def

lemma comma_url_parse:
  "parseCSV (''Rank,Organization Name,Comprehensive Score,Potential Score,Funding Score,''
          @ ''Operations Score,Brand Score,Headquarters Location,Industries,Description,Website''
          @ [nl] @ ''1,'' @ [dq] @ ''Acme'' @ [dq] @ '',22.75,21.00,30.00,40.00,0.00,''
          @ [dq, dq] @ '','' @ [dq, dq] @ '','' @ [dq, dq] @ '',http://a.b/x,y'') = []"
  by (simp add: parse_eval)

text \<open>
  Claim C8 on the code. The claim is that parsing the exported text with
  \<^verbatim>\<open>parseCSV\<close> yields as many records as companies were exported. Because the
  exporter writes the website without quotes, while it quotes the other text fields
  of the row, a comma in the website is a field separator for the parser: the row of
  the one company with the website \<^verbatim>\<open>http://a.b/x,y\<close> has twelve fields under
  a header of eleven, and the parser drops it. One company is exported and no
  record is parsed.
\<close>

theorem comma_in_website_loses_record:
  "length (companies (processData (\<lambda>s. None) 2025
      [[''Organization Name'' \<mapsto> ''Acme'', ''Organization Name URL'' \<mapsto> ''http://a.b/x,y'']])) = 1
   \<and> exportCompaniesToCSV (companies (processData (\<lambda>s. None) 2025
      [[''Organization Name'' \<mapsto> ''Acme'', ''Organization Name URL'' \<mapsto> ''http://a.b/x,y'']]))
     = Inr (''Rank,Organization Name,Comprehensive Score,Potential Score,Funding Score,''
          @ ''Operations Score,Brand Score,Headquarters Location,Industries,Description,Website''
          @ [nl] @ ''1,'' @ [dq] @ ''Acme'' @ [dq] @ '',22.75,21.00,30.00,40.00,0.00,''
          @ [dq, dq] @ '','' @ [dq, dq] @ '','' @ [dq, dq] @ '',http://a.b/x,y'')
   \<and> length (parseCSV (''Rank,Organization Name,Comprehensive Score,Potential Score,Funding Score,''
          @ ''Operations Score,Brand Score,Headquarters Location,Industries,Description,Website''
          @ [nl] @ ''1,'' @ [dq] @ ''Acme'' @ [dq] @ '',22.75,21.00,30.00,40.00,0.00,''
          @ [dq, dq] @ '','' @ [dq, dq] @ '','' @ [dq, dq] @ '',http://a.b/x,y'')) = 0"
  by (simp only: comma_url_export comma_url_parse)
     (simp add: processData_def Let_def length_sortWith length_scoredOf)

text \<open>Two such companies, one with a comma in its name and one with a comma in
  its description, and their round trip.\<close>

lemma exportable_example:
  "\<forall>c \<in> set (companies (processData (\<lambda>s. None) 2025
      [[''Organization Name'' \<mapsto> ''Acme, Inc'', ''Organization Name URL'' \<mapsto> ''http://a.b/x''],
       [''Organization Name'' \<mapsto> ''Bolt'', ''Description'' \<mapsto> ''solar, wind'']])).
     exportable c"
  by (simp add: companies_set scoredOf_def Let_def exportable_def exportedDescription_def
      scoreCompany_sel toTemp_raw orElse_def doubleQuotes_def quoteCount_def nl_def comma_def dq_def)

lemma export_parse_roundtrip_example:
  "list_all exportable (companies (processData (\<lambda>s. None) 2025
      [[''Organization Name'' \<mapsto> ''Acme, Inc'', ''Organization Name URL'' \<mapsto> ''http://a.b/x''],
       [''Organization Name'' \<mapsto> ''Bolt'', ''Description'' \<mapsto> ''solar, wind'']]))
   \<and> (\<exists>csv. exportCompaniesToCSV (companies (processData (\<lambda>s. None) 2025
      [[''Organization Name'' \<mapsto> ''Acme, Inc'', ''Organization Name URL'' \<mapsto> ''http://a.b/x''],
       [''Organization Name'' \<mapsto> ''Bolt'', ''Description'' \<mapsto> ''solar, wind'']])) = Inr csv
       \<and> length (parseCSV csv) = length (companies (processData (\<lambda>s. None) 2025
      [[''Organization Name'' \<mapsto> ''Acme, Inc'', ''Organization Name URL'' \<mapsto> ''http://a.b/x''],
       [''Organization Name'' \<mapsto> ''Bolt'', ''Description'' \<mapsto> ''solar, wind'']])))
   \<and> length (companies (processData (\<lambda>s. None) 2025
      [[''Organization Name'' \<mapsto> ''Acme, Inc'', ''Organization Name URL'' \<mapsto> ''http://a.b/x''],
       [''Organization Name'' \<mapsto> ''Bolt'', ''Description'' \<mapsto> ''solar, wind'']])) = 2"
proof -
  have "length (companies (processData (\<lambda>s. None) 2025
      [[''Organization Name'' \<mapsto> ''Acme, Inc'', ''Organization Name URL'' \<mapsto> ''http://a.b/x''],
       [''Organization Name'' \<mapsto> ''Bolt'', ''Description'' \<mapsto> ''solar, wind'']])) = 2"
    by (simp add: processData_def Let_def length_sortWith length_scoredOf)
  then show ?thesis
    using exportable_example export_parse_roundtrip [OF exportable_example]
    unfolding list_all_iff by blast
qed

end
